theory Spec2Isabelle
  imports Complex_Main
begin

section \<open>The platformer simulation of \<open>marioOS1.0.py\<close> (class \<open>MarioDemo\<close>)\<close>

text \<open>
  Numbers: the Python code mixes \<open>int\<close> literals (platform coordinates, extents) with
  \<open>float\<close> values (positions, velocities). Both are modelled by \<^typ>\<open>real\<close> with exact
  arithmetic; the rounding of IEEE doubles is not modelled. The score is an unbounded
  Python \<open>int\<close> and is modelled by \<^typ>\<open>int\<close>. Drawing on the Tk canvas has no effect on
  the simulation state and is left out.
\<close>

subsection \<open>Utility and geometry helpers\<close>

text \<open>\<^verbatim>\<open>def clamp(v, lo, hi): return max(lo, min(hi, v))\<close>\<close>

definition clamp :: "real \<Rightarrow> real \<Rightarrow> real \<Rightarrow> real" where
  "clamp v lo hi = max lo (min hi v)"

text \<open>A rectangle in corner form \<open>(x1, y1, x2, y2)\<close>; a platform in the form \<open>(x, y, w, h)\<close>.\<close>

type_synonym rect = "real \<times> real \<times> real \<times> real"
type_synonym platform = "real \<times> real \<times> real \<times> real"

fun rects_overlap :: "rect \<Rightarrow> rect \<Rightarrow> bool" where
  "rects_overlap (a0, a1, a2, a3) (b0, b1, b2, b3) =
     (\<not> (a2 \<le> b0 \<or> a0 \<ge> b2 \<or> a3 \<le> b1 \<or> a1 \<ge> b3))"

fun rect_circle_overlap :: "rect \<Rightarrow> real \<times> real \<times> real \<Rightarrow> bool" where
  "rect_circle_overlap (x1, y1, x2, y2) (cx, cy, r) =
     (let nearest_x = clamp cx x1 x2;
          nearest_y = clamp cy y1 y2;
          dx = cx - nearest_x;
          dy = cy - nearest_y
      in dx * dx + dy * dy \<le> r * r)"

subsection \<open>Game state\<close>

record player =
  p_x :: real
  p_y :: real
  p_w :: real
  p_h :: real
  p_vx :: real
  p_vy :: real
  on_ground :: bool

text \<open>A coin is the Python list \<open>[x, y, r, alive]\<close>.\<close>

record coin =
  c_x :: real
  c_y :: real
  c_r :: real
  c_alive :: bool

record enemy =
  e_x :: real
  e_y :: real
  e_w :: real
  e_h :: real
  e_vx :: real
  e_alive :: bool

record goal_rec =
  g_x :: real
  g_y :: real
  g_w :: real
  g_h :: real

text \<open>The dictionary \<open>self.keys\<close> with its three fixed entries.\<close>

record keys_rec =
  k_left :: bool
  k_right :: bool
  k_jump :: bool

text \<open>
  The fields of a \<open>MarioDemo\<close> instance that the simulation reads or writes. \<open>rng\<close> is the
  seed last given to \<open>random.seed\<close>; no random number is ever drawn by the simulation.
\<close>

record game =
  rng :: int
  keys :: keys_rec
  scroll_x :: real
  player :: player
  platforms :: "platform list"
  coins :: "coin list"
  enemies :: "enemy list"
  goal :: goal_rec
  score :: int
  win :: bool

definition RNG_SEED :: int where
  "RNG_SEED = 1337"

text \<open>\<open>self.W\<close>, the viewport width set once by the constructor.\<close>

definition W :: real where
  "W = 800"

subsection \<open>\<open>reset_level\<close>\<close>

definition ground_blocks :: "platform list" where
  "ground_blocks = map (\<lambda>i. (real i * 80, 360, 80, 120)) [0..<20]"

definition floating_platforms :: "platform list" where
  "floating_platforms =
     [(220, 300, 80, 16), (320, 260, 80, 16), (420, 220, 80, 16),
      (600, 300, 80, 16), (700, 260, 80, 16), (820, 220, 80, 16),
      (980, 280, 80, 16), (1080, 240, 80, 16), (1180, 200, 80, 16)]"

definition initial_coins :: "coin list" where
  "initial_coins =
     map (\<lambda>x. \<lparr>c_x = x, c_y = 180, c_r = 8, c_alive = True\<rparr>)
       [260, 360, 460, 620, 720, 840, 1000, 1100, 1200]"

text \<open>
  Every assignment of \<open>reset_level\<close>, in the order of the source. \<open>range(0, 1600, 80)\<close> is
  the list \<open>0, 80, \<dots>, 1520\<close>; \<open>ground_y - 20\<close> is \<open>340\<close>.
\<close>

definition reset_level :: "game \<Rightarrow> game" where
  "reset_level g =
     g\<lparr>rng := RNG_SEED,
       keys := \<lparr>k_left = False, k_right = False, k_jump = False\<rparr>,
       scroll_x := 0,
       player := \<lparr>p_x = 80, p_y = 320, p_w = 24, p_h = 32, p_vx = 0, p_vy = 0,
                  on_ground = False\<rparr>,
       platforms := ground_blocks @ floating_platforms,
       coins := initial_coins,
       enemies := [\<lparr>e_x = 520, e_y = 360 - 20, e_w = 28, e_h = 20, e_vx = - 1,
                    e_alive = True\<rparr>],
       goal := \<lparr>g_x = 1400, g_y = 280, g_w = 12, g_h = 120\<rparr>,
       score := 0,
       win := False\<rparr>"

subsection \<open>\<open>_move_and_collide\<close>\<close>

text \<open>
  The body of the loop over the platforms. \<open>pr\<close> is the rectangle computed once before the
  loop; the loop updates the player but never \<open>pr\<close>.
\<close>

fun resolve_platform :: "rect \<Rightarrow> real \<Rightarrow> real \<Rightarrow> player \<Rightarrow> platform \<Rightarrow> player" where
  "resolve_platform (pr0, pr1, pr2, pr3) dx dy p (x, y, w, h) =
     (let r = (x, y, x + w, y + h) in
      if \<not> rects_overlap (pr0, pr1, pr2, pr3) r then p
      else
        let overlap_x = min pr2 (x + w) - max pr0 x;
            overlap_y = min pr3 (y + h) - max pr1 y
        in if \<bar>overlap_x\<bar> < \<bar>overlap_y\<bar> then
             (if dx > 0 then p\<lparr>p_x := p_x p - overlap_x, p_vx := 0\<rparr>
              else p\<lparr>p_x := p_x p + overlap_x, p_vx := 0\<rparr>)
           else
             (if dy > 0 then p\<lparr>p_y := p_y p - overlap_y, p_vy := 0, on_ground := True\<rparr>
              else p\<lparr>p_y := p_y p + overlap_y, p_vy := 0\<rparr>))"

fun resolve_platforms :: "rect \<Rightarrow> real \<Rightarrow> real \<Rightarrow> platform list \<Rightarrow> player \<Rightarrow> player" where
  "resolve_platforms pr dx dy [] p = p"
| "resolve_platforms pr dx dy (pl # pls) p =
     resolve_platforms pr dx dy pls (resolve_platform pr dx dy p pl)"

definition player_rect :: "player \<Rightarrow> rect" where
  "player_rect p = (p_x p, p_y p, p_x p + p_w p, p_y p + p_h p)"

definition platform_rect :: "platform \<Rightarrow> rect" where
  "platform_rect pl = (case pl of (x, y, w, h) \<Rightarrow> (x, y, x + w, y + h))"

definition move_and_collide :: "platform list \<Rightarrow> player \<Rightarrow> real \<Rightarrow> real \<Rightarrow> player" where
  "move_and_collide pls p dx dy =
     (let p1 = p\<lparr>p_x := p_x p + dx, p_y := p_y p + dy, on_ground := False\<rparr>;
          pr = player_rect p1
      in resolve_platforms pr dx dy pls p1)"

subsection \<open>\<open>_enemy_hits_edge\<close>\<close>

text \<open>
  The first loop: \<open>True\<close> when the loop executes \<open>return True\<close>. \<open>eb\<close> is
  \<open>e["y"] + e["h"]\<close>.
\<close>

fun wall_loop :: "rect \<Rightarrow> real \<Rightarrow> platform list \<Rightarrow> bool" where
  "wall_loop er eb [] = False"
| "wall_loop er eb ((x, y, w, h) # pls) =
     (if rects_overlap er (x, y, x + w, y + h) then
        (if eb \<le> y + 2 then wall_loop er eb pls else True)
      else wall_loop er eb pls)"

text \<open>The second loop: the final value of \<open>below\<close>. \<open>cx\<close> is \<open>next_x + e["w"]/2\<close>.\<close>

fun below_loop :: "real \<Rightarrow> real \<Rightarrow> platform list \<Rightarrow> bool" where
  "below_loop cx eb [] = False"
| "below_loop cx eb ((x, y, w, h) # pls) =
     (if cx \<ge> x \<and> cx \<le> x + w then
        (if eb + 2 \<ge> y \<and> eb \<le> y + 6 then True else below_loop cx eb pls)
      else below_loop cx eb pls)"

definition enemy_hits_edge :: "platform list \<Rightarrow> enemy \<Rightarrow> bool" where
  "enemy_hits_edge pls e =
     (let next_x = e_x e + e_vx e;
          er = (next_x, e_y e, next_x + e_w e, e_y e + e_h e)
      in if wall_loop er (e_y e + e_h e) pls then True
         else \<not> below_loop (next_x + e_w e / 2) (e_y e + e_h e) pls)"

subsection \<open>\<open>_update_physics\<close>\<close>

text \<open>Movement input, friction, clamp, gravity, clamp.\<close>

definition integrate_velocity :: "keys_rec \<Rightarrow> player \<Rightarrow> player" where
  "integrate_velocity ks p =
     (let ax = 0;
          ax = (if k_left ks then ax - 0.8 else ax);
          ax = (if k_right ks then ax + 0.8 else ax);
          vx = p_vx p + ax;
          vx = vx * 0.9;
          vx = clamp vx (- 4) 4;
          vy = p_vy p + 0.8;
          vy = clamp vy (- 12) 12
      in p\<lparr>p_vx := vx, p_vy := vy\<rparr>)"

definition apply_jump :: "keys_rec \<Rightarrow> player \<Rightarrow> player" where
  "apply_jump ks p =
     (if k_jump ks \<and> on_ground p then p\<lparr>p_vy := - 10, on_ground := False\<rparr> else p)"

text \<open>Scrolling: the new \<open>scroll_x\<close> from the old one and the player's \<open>x\<close>.\<close>

definition scroll_update :: "real \<Rightarrow> real \<Rightarrow> real" where
  "scroll_update sx x =
     (let center = x - sx;
          sx1 = (if center > W * 0.6 then x - W * 0.6 else sx);
          sx2 = (if center < W * 0.3 then x - W * 0.3 else sx1)
      in clamp sx2 0 (1600 - W))"

text \<open>The loop over the coins, threading the score.\<close>

fun collect_coins :: "rect \<Rightarrow> coin list \<Rightarrow> int \<Rightarrow> coin list \<times> int" where
  "collect_coins pr [] sc = ([], sc)"
| "collect_coins pr (c # cs) sc =
     (if \<not> c_alive c then
        (case collect_coins pr cs sc of (cs', sc') \<Rightarrow> (c # cs', sc'))
      else if rect_circle_overlap pr (c_x c, c_y c, c_r c) then
        (case collect_coins pr cs (sc + 100) of (cs', sc') \<Rightarrow> (c\<lparr>c_alive := False\<rparr> # cs', sc'))
      else
        (case collect_coins pr cs sc of (cs', sc') \<Rightarrow> (c # cs', sc')))"

text \<open>The first three statements of the enemy loop body: advance, then maybe reverse.\<close>

definition enemy_patrol :: "platform list \<Rightarrow> enemy \<Rightarrow> enemy" where
  "enemy_patrol pls e =
     (let e1 = e\<lparr>e_x := e_x e + e_vx e\<rparr>
      in if enemy_hits_edge pls e1 then e1\<lparr>e_vx := e_vx e1 * (- 1)\<rparr> else e1)"

definition enemy_rect :: "enemy \<Rightarrow> rect" where
  "enemy_rect e = (e_x e, e_y e, e_x e + e_w e, e_y e + e_h e)"

text \<open>
  The loop over the enemies, threading the player and the score. The result \<open>None\<close> stands
  for the branch that calls \<open>reset_level\<close> and returns from \<open>_update_physics\<close>.
\<close>

fun enemies_loop ::
  "platform list \<Rightarrow> rect \<Rightarrow> enemy list \<Rightarrow> player \<Rightarrow> int \<Rightarrow> (enemy list \<times> player \<times> int) option"
where
  "enemies_loop pls pr [] p sc = Some ([], p, sc)"
| "enemies_loop pls pr (e # es) p sc =
     (if \<not> e_alive e then
        (case enemies_loop pls pr es p sc of
           None \<Rightarrow> None
         | Some (es', p', sc') \<Rightarrow> Some (e # es', p', sc'))
      else
        let e1 = enemy_patrol pls e in
        if rects_overlap pr (enemy_rect e1) then
          (if p_vy p > 0 \<and> p_y p + p_h p - 6 \<le> e_y e1 then
             (case enemies_loop pls pr es (p\<lparr>p_vy := - 8\<rparr>) (sc + 200) of
                None \<Rightarrow> None
              | Some (es', p', sc') \<Rightarrow> Some (e1\<lparr>e_alive := False\<rparr> # es', p', sc'))
           else None)
        else
          (case enemies_loop pls pr es p sc of
             None \<Rightarrow> None
           | Some (es', p', sc') \<Rightarrow> Some (e1 # es', p', sc')))"

definition goal_rect :: "goal_rec \<Rightarrow> rect" where
  "goal_rect gl = (g_x gl, g_y gl - g_h gl, g_x gl + g_w gl, g_y gl)"

text \<open>The player after velocity integration and the two collision passes.\<close>

definition collide_player :: "game \<Rightarrow> player" where
  "collide_player g =
     (let p1 = integrate_velocity (keys g) (player g);
          p2 = move_and_collide (platforms g) p1 (p_vx p1) 0
      in move_and_collide (platforms g) p2 0 (p_vy p2))"

definition update_physics :: "game \<Rightarrow> game" where
  "update_physics g =
     (let p = apply_jump (keys g) (collide_player g);
          sx = scroll_update (scroll_x g) (p_x p);
          pr = player_rect p
      in case collect_coins pr (coins g) (score g) of (cs, sc) \<Rightarrow>
         (case enemies_loop (platforms g) pr (enemies g) p sc of
            None \<Rightarrow>
              reset_level (g\<lparr>player := p, scroll_x := sx, coins := cs, score := sc\<rparr>)
          | Some (es, p', sc') \<Rightarrow>
              let g' = g\<lparr>player := p', scroll_x := sx, coins := cs, enemies := es,
                          score := sc'\<rparr>
              in if rects_overlap pr (goal_rect (goal g)) then g'\<lparr>win := True\<rparr> else g'))"

subsection \<open>Key events and the event loop\<close>

text \<open>
  \<open>_on_key\<close> and \<open>_on_key_up\<close>, on the lower-cased key symbol \<open>k\<close>. \<open>_on_key\<close> returns
  \<open>None\<close> when it destroys the window (\<open>escape\<close>), after which no event is delivered.
\<close>

definition on_key :: "string \<Rightarrow> game \<Rightarrow> game option" where
  "on_key k g =
     (let g1 = (if k \<in> set [''left'', ''a''] then g\<lparr>keys := (keys g)\<lparr>k_left := True\<rparr>\<rparr> else g);
          g2 = (if k \<in> set [''right'', ''d''] then g1\<lparr>keys := (keys g1)\<lparr>k_right := True\<rparr>\<rparr> else g1);
          g3 = (if k \<in> set [''space'', ''z'', ''w'', ''up'']
                then g2\<lparr>keys := (keys g2)\<lparr>k_jump := True\<rparr>\<rparr> else g2);
          g4 = (if k = ''r'' then reset_level g3 else g3)
      in if k = ''escape'' then None else Some g4)"

definition on_key_up :: "string \<Rightarrow> game \<Rightarrow> game" where
  "on_key_up k g =
     (let g1 = (if k \<in> set [''left'', ''a''] then g\<lparr>keys := (keys g)\<lparr>k_left := False\<rparr>\<rparr> else g);
          g2 = (if k \<in> set [''right'', ''d''] then g1\<lparr>keys := (keys g1)\<lparr>k_right := False\<rparr>\<rparr> else g1)
      in if k \<in> set [''space'', ''z'', ''w'', ''up'']
         then g2\<lparr>keys := (keys g2)\<lparr>k_jump := False\<rparr>\<rparr> else g2)"

datatype event = KeyPress string | KeyRelease string | Tick

text \<open>
  The Tk main loop delivers key events and timer ticks one at a time; \<open>_tick\<close> runs
  \<open>_update_physics\<close> (\<open>_running\<close> is never cleared). The run ends with the window.
\<close>

fun run :: "game \<Rightarrow> event list \<Rightarrow> game" where
  "run g [] = g"
| "run g (Tick # evs) = run (update_physics g) evs"
| "run g (KeyRelease k # evs) = run (on_key_up k g) evs"
| "run g (KeyPress k # evs) =
     (case on_key k g of None \<Rightarrow> g | Some g' \<Rightarrow> run g' evs)"

subsection \<open>The constructor\<close>

text \<open>
  \<open>__init__\<close> sets no simulation field itself: it calls \<open>reset_level\<close> on the fresh
  object. \<open>blank_game\<close> stands for the object before that call.
\<close>

definition blank_game :: game where
  "blank_game =
     \<lparr>rng = 0, keys = \<lparr>k_left = False, k_right = False, k_jump = False\<rparr>, scroll_x = 0,
      player = \<lparr>p_x = 0, p_y = 0, p_w = 0, p_h = 0, p_vx = 0, p_vy = 0, on_ground = False\<rparr>,
      platforms = [], coins = [], enemies = [],
      goal = \<lparr>g_x = 0, g_y = 0, g_w = 0, g_h = 0\<rparr>, score = 0, win = False\<rparr>"

definition new_game :: game where
  "new_game = reset_level blank_game"

section \<open>Notions used to state the properties\<close>

text \<open>
  The extents of the intersection of two rectangles, as \<open>_move_and_collide\<close> computes
  them (\<open>overlap_x\<close> and \<open>overlap_y\<close>).
\<close>

fun overlap_w :: "rect \<Rightarrow> rect \<Rightarrow> real" where
  "overlap_w (a0, a1, a2, a3) (b0, b1, b2, b3) = min a2 b2 - max a0 b0"

fun overlap_h :: "rect \<Rightarrow> rect \<Rightarrow> real" where
  "overlap_h (a0, a1, a2, a3) (b0, b1, b2, b3) = min a3 b3 - max a1 b1"

text \<open>The player as the interaction code of a tick sees it: after collision and jump.\<close>

definition tick_player :: "game \<Rightarrow> player" where
  "tick_player g = apply_jump (keys g) (collide_player g)"

text \<open>The score after the coin loop of a tick.\<close>

definition coin_score :: "game \<Rightarrow> int" where
  "coin_score g = snd (collect_coins (player_rect (tick_player g)) (coins g) (score g))"

text \<open>The tick takes the branch that calls \<open>reset_level\<close> (the player is hit).\<close>

definition tick_resets :: "game \<Rightarrow> bool" where
  "tick_resets g =
     (case enemies_loop (platforms g) (player_rect (tick_player g)) (enemies g)
             (tick_player g) (coin_score g) of
        None \<Rightarrow> True
      | Some r \<Rightarrow> False)"

text \<open>No reset happens while the events are processed: neither by the key \<open>r\<close> nor in a tick.\<close>

fun no_reset :: "game \<Rightarrow> event list \<Rightarrow> bool" where
  "no_reset g [] = True"
| "no_reset g (Tick # evs) = (\<not> tick_resets g \<and> no_reset (update_physics g) evs)"
| "no_reset g (KeyRelease k # evs) = no_reset (on_key_up k g) evs"
| "no_reset g (KeyPress k # evs) =
     (k \<noteq> ''r'' \<and> (case on_key k g of None \<Rightarrow> True | Some g' \<Rightarrow> no_reset g' evs))"

definition vel_ok :: "player \<Rightarrow> bool" where
  "vel_ok p = (- 4 \<le> p_vx p \<and> p_vx p \<le> 4 \<and> - 12 \<le> p_vy p \<and> p_vy p \<le> 12)"

text \<open>The stomp test of the enemy loop, for the player \<open>p\<close> and the enemy \<open>e\<close>.\<close>

definition stomps :: "player \<Rightarrow> enemy \<Rightarrow> bool" where
  "stomps p e = (p_vy p > 0 \<and> p_y p + p_h p - 6 \<le> e_y e)"

text \<open>What the enemy loop does to an enemy that is not touched by the player.\<close>

definition enemy_step :: "platform list \<Rightarrow> enemy \<Rightarrow> enemy" where
  "enemy_step pls e = (if e_alive e then enemy_patrol pls e else e)"

text \<open>A living enemy that overlaps the player's rectangle \<open>pr\<close> after its own move.\<close>

definition enemy_touches :: "platform list \<Rightarrow> rect \<Rightarrow> enemy \<Rightarrow> bool" where
  "enemy_touches pls pr e = (e_alive e \<and> rects_overlap pr (enemy_rect (enemy_patrol pls e)))"

subsection \<open>The two reversal conditions of the enemy patrol, as the specification words them\<close>

text \<open>
  Both are evaluated at the prospective next position \<open>next_x\<close> of an enemy \<open>e\<close> that has
  already been advanced: (a) the projected rectangle overlaps a platform on whose top the
  enemy does not stand; (b) some platform lies directly beneath the horizontal centre.
\<close>

definition spec_wall_hit :: "platform list \<Rightarrow> enemy \<Rightarrow> bool" where
  "spec_wall_hit pls e =
     (let next_x = e_x e + e_vx e in
      \<exists>(x, y, w, h) \<in> set pls.
         rects_overlap (next_x, e_y e, next_x + e_w e, e_y e + e_h e) (x, y, x + w, y + h)
         \<and> y + 2 < e_y e + e_h e)"

definition spec_ground_beneath :: "platform list \<Rightarrow> enemy \<Rightarrow> bool" where
  "spec_ground_beneath pls e =
     (let c = e_x e + e_vx e + e_w e / 2 in
      \<exists>(x, y, w, h) \<in> set pls.
         x \<le> c \<and> c \<le> x + w \<and> y \<le> e_y e + e_h e + 2 \<and> e_y e + e_h e \<le> y + 6)"

subsection \<open>The tick in the order of the specification\<close>

text \<open>
  The specification lists the phases of a tick as: integrate, horizontal pass, vertical pass,
  jump, camera, Enemy Controller for each living enemy, Interaction Evaluator (coins, then
  stomp or death per living enemy, then goal). The definitions below follow that wording;
  \<open>update_physics\<close> above follows the source, which collects the coins before the enemy
  loop and tests each enemy against the player right after moving it.
\<close>

definition spec_enemy_controller :: "platform list \<Rightarrow> enemy list \<Rightarrow> enemy list" where
  "spec_enemy_controller pls es = map (enemy_step pls) es"

fun spec_enemy_interactions ::
  "rect \<Rightarrow> enemy list \<Rightarrow> player \<Rightarrow> int \<Rightarrow> (enemy list \<times> player \<times> int) option"
where
  "spec_enemy_interactions pr [] p sc = Some ([], p, sc)"
| "spec_enemy_interactions pr (e # es) p sc =
     (if e_alive e \<and> rects_overlap pr (enemy_rect e) then
        (if stomps p e then
           (case spec_enemy_interactions pr es (p\<lparr>p_vy := - 8\<rparr>) (sc + 200) of
              None \<Rightarrow> None
            | Some (es', p', sc') \<Rightarrow> Some (e\<lparr>e_alive := False\<rparr> # es', p', sc'))
         else None)
      else
        (case spec_enemy_interactions pr es p sc of
           None \<Rightarrow> None
         | Some (es', p', sc') \<Rightarrow> Some (e # es', p', sc')))"

definition spec_interaction_evaluator :: "game \<Rightarrow> game" where
  "spec_interaction_evaluator g =
     (let pr = player_rect (player g) in
      case collect_coins pr (coins g) (score g) of (cs, sc) \<Rightarrow>
        (case spec_enemy_interactions pr (enemies g) (player g) sc of
           None \<Rightarrow> reset_level g
         | Some (es, p', sc') \<Rightarrow>
             let g' = g\<lparr>player := p', coins := cs, enemies := es, score := sc'\<rparr>
             in if rects_overlap pr (goal_rect (goal g)) then g'\<lparr>win := True\<rparr> else g'))"

definition spec_tick :: "game \<Rightarrow> game" where
  "spec_tick g =
     (let g1 = g\<lparr>player := integrate_velocity (keys g) (player g)\<rparr>;
          g2 = g1\<lparr>player := move_and_collide (platforms g1) (player g1) (p_vx (player g1)) 0\<rparr>;
          g3 = g2\<lparr>player := move_and_collide (platforms g2) (player g2) 0 (p_vy (player g2))\<rparr>;
          g4 = g3\<lparr>player := apply_jump (keys g3) (player g3)\<rparr>;
          g5 = g4\<lparr>scroll_x := scroll_update (scroll_x g4) (p_x (player g4))\<rparr>;
          g6 = g5\<lparr>enemies := spec_enemy_controller (platforms g5) (enemies g5)\<rparr>
      in spec_interaction_evaluator g6)"

text \<open>A rectangle with positive width and height.\<close>

fun proper_rect :: "rect \<Rightarrow> bool" where
  "proper_rect (x1, y1, x2, y2) = (x1 < x2 \<and> y1 < y2)"

text \<open>How one tick may change a coin and an enemy, and the numbers still alive.\<close>

definition coin_after :: "coin \<Rightarrow> coin \<Rightarrow> bool" where
  "coin_after c c' = (c' = c \<or> (c_alive c \<and> c' = c\<lparr>c_alive := False\<rparr>))"

definition enemy_after :: "platform list \<Rightarrow> enemy \<Rightarrow> enemy \<Rightarrow> bool" where
  "enemy_after pls e e' =
     (if e_alive e
      then e' = enemy_patrol pls e \<or> e' = (enemy_patrol pls e)\<lparr>e_alive := False\<rparr>
      else e' = e)"

definition live_coins :: "coin list \<Rightarrow> int" where
  "live_coins cs = int (length (filter c_alive cs))"

definition live_enemies :: "enemy list \<Rightarrow> int" where
  "live_enemies es = int (length (filter e_alive es))"

text \<open>
  What the generated level keeps fixed: the goal, the player's height and the height at which
  enemies walk. With these the player cannot overlap the goal and an enemy at once.
\<close>

definition level_inv :: "game \<Rightarrow> bool" where
  "level_inv g =
     (goal g = \<lparr>g_x = 1400, g_y = 280, g_w = 12, g_h = 120\<rparr> \<and>
      p_h (player g) = 32 \<and>
      (\<forall>e \<in> set (enemies g). e_y e = 340))"

subsection \<open>A concrete run: holding Right and Jump from the start\<close>

text \<open>
  The key events \<open>Right\<close> and \<open>Space\<close> pressed on a fresh game, followed by \<open>n\<close> ticks;
  and the states such a run passes through, which differ from the fresh game in the keys,
  the player's position and velocity, and the enemy's position.
\<close>

definition hold_right_jump :: "nat \<Rightarrow> event list" where
  "hold_right_jump n = KeyPress ''right'' # KeyPress ''space'' # replicate n Tick"

definition airborne :: "real \<Rightarrow> real \<Rightarrow> real \<Rightarrow> real \<Rightarrow> real \<Rightarrow> game" where
  "airborne x y vx vy ex =
     new_game\<lparr>keys := \<lparr>k_left = False, k_right = True, k_jump = True\<rparr>,
       player := \<lparr>p_x = x, p_y = y, p_w = 24, p_h = 32, p_vx = vx, p_vy = vy,
                  on_ground = False\<rparr>,
       enemies := [\<lparr>e_x = ex, e_y = 340, e_w = 28, e_h = 20, e_vx = - 1, e_alive = True\<rparr>]\<rparr>"

section \<open>Basic facts about the operations\<close>

lemma resolve_platform_no_overlap:
  "\<not> rects_overlap pr (platform_rect pl) \<Longrightarrow> resolve_platform pr dx dy p pl = p"
  by (cases pr; cases pl) (simp add: platform_rect_def)

lemma resolve_platforms_no_overlap:
  "\<forall>pl \<in> set pls. \<not> rects_overlap pr (platform_rect pl) \<Longrightarrow> resolve_platforms pr dx dy pls p = p"
  by (induction pls arbitrary: p) (simp_all add: resolve_platform_no_overlap)

lemma reset_level_const: "reset_level g = reset_level g'"
  by (cases g; cases g') (simp add: reset_level_def)

lemma integrate_velocity_ok: "vel_ok (integrate_velocity ks p)"
  unfolding vel_ok_def integrate_velocity_def Let_def clamp_def by simp

lemma resolve_platform_vel:
  "(p_vx (resolve_platform pr dx dy p pl) = p_vx p \<or> p_vx (resolve_platform pr dx dy p pl) = 0) \<and>
   (p_vy (resolve_platform pr dx dy p pl) = p_vy p \<or> p_vy (resolve_platform pr dx dy p pl) = 0)"
  by (cases pr; cases pl) (simp add: Let_def)

lemma resolve_platform_vel_ok: "vel_ok p \<Longrightarrow> vel_ok (resolve_platform pr dx dy p pl)"
  using resolve_platform_vel [of pr dx dy p pl] unfolding vel_ok_def by auto

lemma resolve_platforms_vel_ok: "vel_ok p \<Longrightarrow> vel_ok (resolve_platforms pr dx dy pls p)"
  by (induction pls arbitrary: p) (simp_all add: resolve_platform_vel_ok)

lemma moved_vel_ok: "vel_ok p \<Longrightarrow> vel_ok (p\<lparr>p_x := a, p_y := b, on_ground := c\<rparr>)"
  by (simp add: vel_ok_def)

lemma move_and_collide_vel_ok: "vel_ok p \<Longrightarrow> vel_ok (move_and_collide pls p dx dy)"
  unfolding move_and_collide_def Let_def by (intro resolve_platforms_vel_ok moved_vel_ok)

lemma collide_player_vel_ok: "vel_ok (collide_player g)"
  unfolding collide_player_def Let_def by (intro move_and_collide_vel_ok integrate_velocity_ok)

lemma apply_jump_vel_ok: "vel_ok p \<Longrightarrow> vel_ok (apply_jump ks p)"
  by (simp add: apply_jump_def vel_ok_def)

lemma tick_player_vel_ok: "vel_ok (tick_player g)"
  by (simp add: tick_player_def apply_jump_vel_ok collide_player_vel_ok)

lemma reset_level_vel_ok: "vel_ok (player (reset_level g))"
  by (simp add: reset_level_def vel_ok_def)

lemma on_key_up_player: "player (on_key_up k g) = player g"
  by (simp add: on_key_up_def Let_def)

lemma scroll_update_range: "0 \<le> scroll_update sx x \<and> scroll_update sx x \<le> 1600 - W"
  by (simp add: scroll_update_def Let_def clamp_def W_def)

lemma on_key_cases:
  "on_key k g = None \<and> k = ''escape'' \<or>
   on_key k g = Some (reset_level g) \<and> k = ''r'' \<or>
   (\<exists>ks. on_key k g = Some (g\<lparr>keys := ks\<rparr>)) \<and> k \<noteq> ''r''"
proof -
  have id: "g = g\<lparr>keys := keys g\<rparr>" by simp
  show ?thesis
    unfolding on_key_def Let_def using id by (cases "k = ''r''"; cases "k = ''escape''"; simp; metis)
qed

subsection \<open>One iteration of the enemy loop\<close>

lemma enemies_loop_dead:
  "\<not> e_alive e \<Longrightarrow>
   enemies_loop pls pr (e # es) p sc =
     map_option (\<lambda>(es', p', sc'). (e # es', p', sc')) (enemies_loop pls pr es p sc)"
  by (simp split: option.split)

lemma enemies_loop_miss:
  "e_alive e \<Longrightarrow> \<not> rects_overlap pr (enemy_rect (enemy_patrol pls e)) \<Longrightarrow>
   enemies_loop pls pr (e # es) p sc =
     map_option (\<lambda>(es', p', sc'). (enemy_patrol pls e # es', p', sc')) (enemies_loop pls pr es p sc)"
  by (simp add: Let_def split: option.split)

lemma enemies_loop_stomp:
  "e_alive e \<Longrightarrow> rects_overlap pr (enemy_rect (enemy_patrol pls e)) \<Longrightarrow>
   stomps p (enemy_patrol pls e) \<Longrightarrow>
   enemies_loop pls pr (e # es) p sc =
     map_option (\<lambda>(es', p', sc'). ((enemy_patrol pls e)\<lparr>e_alive := False\<rparr> # es', p', sc'))
       (enemies_loop pls pr es (p\<lparr>p_vy := - 8\<rparr>) (sc + 200))"
  by (simp add: Let_def stomps_def split: option.split)

lemma enemies_loop_hit:
  "e_alive e \<Longrightarrow> rects_overlap pr (enemy_rect (enemy_patrol pls e)) \<Longrightarrow>
   \<not> stomps p (enemy_patrol pls e) \<Longrightarrow>
   enemies_loop pls pr (e # es) p sc = None"
  by (auto simp: Let_def stomps_def)

lemma enemies_loop_cases:
  obtains (dead) "\<not> e_alive e"
  | (miss) "e_alive e" "\<not> rects_overlap pr (enemy_rect (enemy_patrol pls e))"
  | (stomp) "e_alive e" "rects_overlap pr (enemy_rect (enemy_patrol pls e))" "stomps p (enemy_patrol pls e)"
  | (hit) "e_alive e" "rects_overlap pr (enemy_rect (enemy_patrol pls e))" "\<not> stomps p (enemy_patrol pls e)"
  by blast

subsection \<open>The two outcomes of a tick\<close>

lemma update_physics_reset:
  "tick_resets g \<Longrightarrow> update_physics g = reset_level g"
  unfolding tick_resets_def update_physics_def coin_score_def tick_player_def Let_def
  by (auto split: prod.splits option.splits intro: reset_level_const)

lemma update_physics_cont:
  assumes "enemies_loop (platforms g) (player_rect (tick_player g)) (enemies g)
             (tick_player g) (coin_score g) = Some (es, p', sc')"
  shows "update_physics g =
     g\<lparr>player := p',
       scroll_x := scroll_update (scroll_x g) (p_x (tick_player g)),
       coins := fst (collect_coins (player_rect (tick_player g)) (coins g) (score g)),
       enemies := es, score := sc',
       win := (win g \<or> rects_overlap (player_rect (tick_player g)) (goal_rect (goal g)))\<rparr>"
  using assms
  unfolding update_physics_def coin_score_def tick_player_def Let_def
  by (cases g) (auto split: prod.splits)

lemma not_resets_obtain:
  assumes "\<not> tick_resets g"
  obtains es p' sc' where
    "enemies_loop (platforms g) (player_rect (tick_player g)) (enemies g)
             (tick_player g) (coin_score g) = Some (es, p', sc')"
  using assms unfolding tick_resets_def by (auto split: option.splits)

declare enemies_loop.simps(2) [simp del]

lemma ahead_Some:
  "map_option (\<lambda>(es', p', sc'). (f es', p', sc')) r = Some (es2, p2, sc2) \<Longrightarrow>
   \<exists>es1. r = Some (es1, p2, sc2) \<and> es2 = f es1"
  by (cases r) auto

lemma rects_overlap_proper:
  "proper_rect a \<Longrightarrow> proper_rect b \<Longrightarrow>
   rects_overlap a b = (0 < overlap_w a b \<and> 0 < overlap_h a b)"
  by (cases a; cases b) (auto simp: min_def max_def)

lemma enemies_loop_untouched:
  "\<forall>e \<in> set es. \<not> enemy_touches pls pr e \<Longrightarrow>
   enemies_loop pls pr es p sc = Some (map (enemy_step pls) es, p, sc)"
proof (induction es)
  case Nil
  then show ?case by simp
next
  case (Cons e es)
  then have rest: "enemies_loop pls pr es p sc = Some (map (enemy_step pls) es, p, sc)"
    by simp
  show ?case
  proof (cases "e_alive e")
    case True
    with Cons.prems have "\<not> rects_overlap pr (enemy_rect (enemy_patrol pls e))"
      by (simp add: enemy_touches_def)
    with True rest show ?thesis
      by (simp add: enemies_loop_miss enemy_step_def)
  next
    case False
    with rest show ?thesis
      by (simp add: enemies_loop_dead enemy_step_def)
  qed
qed

lemma move_and_collide_free:
  assumes "\<forall>pl \<in> set pls. \<not> rects_overlap
     (player_rect (p\<lparr>p_x := p_x p + dx, p_y := p_y p + dy, on_ground := False\<rparr>)) (platform_rect pl)"
  shows "move_and_collide pls p dx dy = p\<lparr>p_x := p_x p + dx, p_y := p_y p + dy, on_ground := False\<rparr>"
  unfolding move_and_collide_def Let_def
  by (rule resolve_platforms_no_overlap [OF assms])

lemma update_physics_win:
  assumes "\<not> tick_resets g"
  shows "win (update_physics g) =
     (win g \<or> rects_overlap (player_rect (tick_player g)) (goal_rect (goal g)))"
proof -
  from assms obtain es p' sc' where
    loop: "enemies_loop (platforms g) (player_rect (tick_player g)) (enemies g)
             (tick_player g) (coin_score g) = Some (es, p', sc')"
    by (rule not_resets_obtain)
  show ?thesis by (simp add: update_physics_cont [OF loop])
qed

lemma wall_loop_iff:
  "wall_loop er eb pls =
     (\<exists>(x, y, w, h) \<in> set pls. rects_overlap er (x, y, x + w, y + h) \<and> y + 2 < eb)"
  by (induction er eb pls rule: wall_loop.induct) auto

lemma below_loop_iff:
  "below_loop cx eb pls =
     (\<exists>(x, y, w, h) \<in> set pls. x \<le> cx \<and> cx \<le> x + w \<and> y \<le> eb + 2 \<and> eb \<le> y + 6)"
  by (induction cx eb pls rule: below_loop.induct) auto

lemma enemy_hits_edge_iff:
  "enemy_hits_edge pls e = (spec_wall_hit pls e \<or> \<not> spec_ground_beneath pls e)"
  unfolding enemy_hits_edge_def spec_wall_hit_def spec_ground_beneath_def Let_def
    wall_loop_iff below_loop_iff
  by (simp add: add.assoc)

lemma enemy_patrol_eq:
  "enemy_patrol pls e =
     e\<lparr>e_x := e_x e + e_vx e,
       e_vx := (if spec_wall_hit pls (e\<lparr>e_x := e_x e + e_vx e\<rparr>)
                   \<or> \<not> spec_ground_beneath pls (e\<lparr>e_x := e_x e + e_vx e\<rparr>)
                then - e_vx e else e_vx e)\<rparr>"
  by (cases e) (simp add: enemy_patrol_def Let_def enemy_hits_edge_iff)

subsection \<open>What the coin loop and the enemy loop return\<close>

lemma enemy_patrol_fields [simp]:
  "e_alive (enemy_patrol pls e) = e_alive e"
  "e_y (enemy_patrol pls e) = e_y e"
  "e_w (enemy_patrol pls e) = e_w e"
  "e_h (enemy_patrol pls e) = e_h e"
  by (simp_all add: enemy_patrol_def Let_def)

lemma enemies_loop_result:
  "enemies_loop pls pr es p sc = Some (es', p', sc') \<Longrightarrow>
   list_all2 (enemy_after pls) es es' \<and>
   sc' = sc + 200 * (live_enemies es - live_enemies es') \<and>
   (p' = p \<or> p' = p\<lparr>p_vy := - 8\<rparr>)"
proof (induction es arbitrary: p sc es' p' sc')
  case Nil
  then show ?case by (simp add: live_enemies_def)
next
  case (Cons e es)
  show ?case
  proof (cases rule: enemies_loop_cases [where e = e and pr = pr and pls = pls and p = p])
    case dead
    with Cons.prems obtain es1 where
      r: "enemies_loop pls pr es p sc = Some (es1, p', sc')" and e: "es' = e # es1"
      by (auto simp: enemies_loop_dead dest: ahead_Some)
    from Cons.IH [OF r] dead e show ?thesis
      by (simp add: enemy_after_def live_enemies_def)
  next
    case miss
    with Cons.prems obtain es1 where
      r: "enemies_loop pls pr es p sc = Some (es1, p', sc')"
      and e: "es' = enemy_patrol pls e # es1"
      by (auto simp: enemies_loop_miss dest: ahead_Some)
    from Cons.IH [OF r] miss e show ?thesis
      by (simp add: enemy_after_def live_enemies_def)
  next
    case stomp
    with Cons.prems obtain es1 where
      r: "enemies_loop pls pr es (p\<lparr>p_vy := - 8\<rparr>) (sc + 200) = Some (es1, p', sc')"
      and e: "es' = (enemy_patrol pls e)\<lparr>e_alive := False\<rparr> # es1"
      by (auto simp: enemies_loop_stomp dest: ahead_Some)
    from Cons.IH [OF r] stomp e show ?thesis
      by (auto simp: enemy_after_def live_enemies_def)
  next
    case hit
    with Cons.prems show ?thesis by (simp add: enemies_loop_hit)
  qed
qed

lemma collect_coins_result:
  "collect_coins pr cs sc = (cs', sc') \<Longrightarrow>
   list_all2 coin_after cs cs' \<and> sc' = sc + 100 * (live_coins cs - live_coins cs')"
proof (induction cs arbitrary: sc cs' sc')
  case Nil
  then show ?case by (simp add: live_coins_def)
next
  case (Cons c cs)
  show ?case
  proof (cases "c_alive c \<and> rect_circle_overlap pr (c_x c, c_y c, c_r c)")
    case True
    with Cons.prems obtain cs1 where
      r: "collect_coins pr cs (sc + 100) = (cs1, sc')" and e: "cs' = c\<lparr>c_alive := False\<rparr> # cs1"
      by (auto split: prod.splits)
    from Cons.IH [OF r] True e show ?thesis
      by (simp add: coin_after_def live_coins_def)
  next
    case False
    with Cons.prems obtain cs1 where
      r: "collect_coins pr cs sc = (cs1, sc')" and e: "cs' = c # cs1"
      by (auto split: prod.splits if_splits)
    from Cons.IH [OF r] False e show ?thesis
      by (simp add: coin_after_def live_coins_def)
  qed
qed

lemma coin_after_refl: "coin_after c c"
  by (simp add: coin_after_def)

lemma coin_after_trans: "coin_after a b \<Longrightarrow> coin_after b c \<Longrightarrow> coin_after a c"
  by (auto simp: coin_after_def)

lemma coins_after_refl: "list_all2 coin_after cs cs"
  by (simp add: list_all2_refl coin_after_refl)

lemma coins_after_trans:
  "list_all2 coin_after as bs \<Longrightarrow> list_all2 coin_after bs cs \<Longrightarrow> list_all2 coin_after as cs"
  by (rule list_all2_trans [of coin_after coin_after coin_after, rotated 1])
     (auto intro: coin_after_trans)

subsection \<open>Ticks and runs without a reset\<close>

lemma tick_cont_facts:
  assumes "\<not> tick_resets g"
  shows "list_all2 coin_after (coins g) (coins (update_physics g))"
    and "list_all2 (enemy_after (platforms g)) (enemies g) (enemies (update_physics g))"
    and "coin_score g = score g + 100 * (live_coins (coins g) - live_coins (coins (update_physics g)))"
    and "score (update_physics g) =
           coin_score g + 200 * (live_enemies (enemies g) - live_enemies (enemies (update_physics g)))"
    and "platforms (update_physics g) = platforms g"
    and "goal (update_physics g) = goal g"
    and "keys (update_physics g) = keys g"
proof -
  from assms obtain es p' sc' where
    loop: "enemies_loop (platforms g) (player_rect (tick_player g)) (enemies g)
             (tick_player g) (coin_score g) = Some (es, p', sc')"
    by (rule not_resets_obtain)
  note up = update_physics_cont [OF loop]
  obtain cs sc where cc: "collect_coins (player_rect (tick_player g)) (coins g) (score g) = (cs, sc)"
    by (cases "collect_coins (player_rect (tick_player g)) (coins g) (score g)")
  from collect_coins_result [OF cc] cc
  show "list_all2 coin_after (coins g) (coins (update_physics g))"
    and "coin_score g = score g + 100 * (live_coins (coins g) - live_coins (coins (update_physics g)))"
    by (simp_all add: up coin_score_def)
  from enemies_loop_result [OF loop]
  show "list_all2 (enemy_after (platforms g)) (enemies g) (enemies (update_physics g))"
    and "score (update_physics g) =
           coin_score g + 200 * (live_enemies (enemies g) - live_enemies (enemies (update_physics g)))"
    by (simp_all add: up)
  show "platforms (update_physics g) = platforms g" "goal (update_physics g) = goal g"
    "keys (update_physics g) = keys g"
    by (simp_all add: up)
qed

lemma on_key_up_coins: "coins (on_key_up k g) = coins g"
  by (simp add: on_key_up_def Let_def)

lemma on_key_up_win: "win (on_key_up k g) = win g"
  by (simp add: on_key_up_def Let_def)

lemma run_coins_after:
  "no_reset g evs \<Longrightarrow> list_all2 coin_after (coins g) (coins (run g evs))"
proof (induction g evs rule: run.induct)
  case (1 g)
  then show ?case by (simp add: coins_after_refl)
next
  case (2 g evs)
  then show ?case
    using coins_after_trans [OF tick_cont_facts(1) [of g]] by simp
next
  case (3 g k evs)
  then show ?case by (simp add: on_key_up_coins)
next
  case (4 g k evs)
  from "4.prems" have nr: "k \<noteq> ''r''" by simp
  with on_key_cases [of k g] consider "on_key k g = None"
    | ks where "on_key k g = Some (g\<lparr>keys := ks\<rparr>)" by auto
  then show ?case
  proof cases
    case 1
    then show ?thesis by (simp add: coins_after_refl)
  next
    case 2
    with "4.IH" [OF 2] "4.prems" show ?thesis by simp
  qed
qed

lemma run_win_sticky:
  "no_reset g evs \<Longrightarrow> win g \<Longrightarrow> win (run g evs)"
proof (induction g evs rule: run.induct)
  case (1 g)
  then show ?case by simp
next
  case (2 g evs)
  then show ?case by (simp add: update_physics_win)
next
  case (3 g k evs)
  then show ?case by (simp add: on_key_up_win)
next
  case (4 g k evs)
  from "4.prems" have nr: "k \<noteq> ''r''" by simp
  with on_key_cases [of k g] consider "on_key k g = None"
    | ks where "on_key k g = Some (g\<lparr>keys := ks\<rparr>)" by auto
  then show ?case
  proof cases
    case 1
    then show ?thesis using "4.prems" by simp
  next
    case 2
    with "4.IH" [OF 2] "4.prems" show ?thesis by simp
  qed
qed

lemma tick_player_win [simp]: "tick_player (g\<lparr>win := b\<rparr>) = tick_player g"
  by (simp add: tick_player_def collide_player_def)

lemma coin_score_win [simp]: "coin_score (g\<lparr>win := b\<rparr>) = coin_score g"
  by (simp add: coin_score_def)

lemma tick_resets_win [simp]: "tick_resets (g\<lparr>win := b\<rparr>) = tick_resets g"
  by (simp add: tick_resets_def)

lemma update_physics_ignores_win:
  "(update_physics (g\<lparr>win := b\<rparr>))\<lparr>win := c\<rparr> = (update_physics g)\<lparr>win := c\<rparr>"
proof (cases "tick_resets g")
  case True
  then show ?thesis
    using reset_level_const [of "g\<lparr>win := b\<rparr>" g] by (simp add: update_physics_reset)
next
  case False
  then obtain es p' sc' where
    loop: "enemies_loop (platforms g) (player_rect (tick_player g)) (enemies g)
             (tick_player g) (coin_score g) = Some (es, p', sc')"
    by (rule not_resets_obtain)
  then have loop': "enemies_loop (platforms (g\<lparr>win := b\<rparr>)) (player_rect (tick_player (g\<lparr>win := b\<rparr>)))
       (enemies (g\<lparr>win := b\<rparr>)) (tick_player (g\<lparr>win := b\<rparr>)) (coin_score (g\<lparr>win := b\<rparr>))
       = Some (es, p', sc')"
    by simp
  show ?thesis
    by (simp add: update_physics_cont [OF loop] update_physics_cont [OF loop'])
qed

lemma new_game_tick_player:
  "tick_player new_game =
     \<lparr>p_x = 80, p_y = 1604 / 5, p_w = 24, p_h = 32, p_vx = 0, p_vy = 4 / 5, on_ground = False\<rparr>"
  by code_simp

lemma new_game_no_reset: "\<not> tick_resets new_game"
  by code_simp

lemma enemies_after_nth:
  assumes "list_all2 (enemy_after pls) es es'"
  shows "length es' = length es \<and>
     (\<forall>i < length es.
        if e_alive (es ! i)
        then es' ! i = enemy_patrol pls (es ! i) \<or>
             es' ! i = (enemy_patrol pls (es ! i))\<lparr>e_alive := False\<rparr>
        else es' ! i = es ! i)"
  using list_all2_lengthD [OF assms] list_all2_nthD [OF assms]
  by (auto simp: enemy_after_def)

lemma coins_after_nth:
  assumes "list_all2 coin_after cs cs'"
  shows "length cs' = length cs \<and>
     (\<forall>i < length cs.
        cs' ! i = cs ! i \<or> (c_alive (cs ! i) \<and> cs' ! i = (cs ! i)\<lparr>c_alive := False\<rparr>))"
  using list_all2_lengthD [OF assms] list_all2_nthD [OF assms]
  by (auto simp: coin_after_def)

lemma coin_demo_tick:
  "\<not> tick_resets (new_game\<lparr>player :=
      \<lparr>p_x = 250, p_y = 160, p_w = 24, p_h = 32, p_vx = 0, p_vy = 0, on_ground = False\<rparr>\<rparr>)"
  "coin_score (new_game\<lparr>player :=
      \<lparr>p_x = 250, p_y = 160, p_w = 24, p_h = 32, p_vx = 0, p_vy = 0, on_ground = False\<rparr>\<rparr>) = 100"
  by code_simp+

lemma goal_demo_tick:
  "\<not> tick_resets (new_game\<lparr>player :=
      \<lparr>p_x = 1395, p_y = 200, p_w = 24, p_h = 32, p_vx = 0, p_vy = 0, on_ground = False\<rparr>\<rparr>)"
  "rects_overlap (player_rect (tick_player (new_game\<lparr>player :=
      \<lparr>p_x = 1395, p_y = 200, p_w = 24, p_h = 32, p_vx = 0, p_vy = 0, on_ground = False\<rparr>\<rparr>)))
     (goal_rect (goal (new_game\<lparr>player :=
      \<lparr>p_x = 1395, p_y = 200, p_w = 24, p_h = 32, p_vx = 0, p_vy = 0, on_ground = False\<rparr>\<rparr>)))"
  by code_simp+

subsection \<open>Stomp, death and the order of the enemy loop\<close>

lemma bounce_never_stomps: "\<not> stomps (p\<lparr>p_vy := - 8\<rparr>) e"
  by (simp add: stomps_def)

lemma enemies_loop_death:
  "\<exists>e \<in> set es. enemy_touches pls pr e \<and> \<not> stomps p (enemy_patrol pls e) \<Longrightarrow>
   enemies_loop pls pr es p sc = None"
proof (induction es arbitrary: p sc)
  case Nil
  then show ?case by simp
next
  case (Cons e es)
  from Cons.prems obtain b where b: "b \<in> set (e # es)" "enemy_touches pls pr b"
    "\<not> stomps p (enemy_patrol pls b)" by blast
  show ?case
  proof (cases rule: enemies_loop_cases [where e = e and pr = pr and pls = pls and p = p])
    case dead
    with b have "b \<in> set es" by (auto simp: enemy_touches_def)
    with b Cons.IH [of p sc] have "enemies_loop pls pr es p sc = None" by blast
    with dead show ?thesis by (simp add: enemies_loop_dead)
  next
    case miss
    with b have "b \<in> set es" by (auto simp: enemy_touches_def)
    with b Cons.IH [of p sc] have "enemies_loop pls pr es p sc = None" by blast
    with miss show ?thesis by (simp add: enemies_loop_miss)
  next
    case stomp
    with b have "b \<in> set es" by auto
    with b bounce_never_stomps Cons.IH [of "p\<lparr>p_vy := - 8\<rparr>" "sc + 200"]
    have "enemies_loop pls pr es (p\<lparr>p_vy := - 8\<rparr>) (sc + 200) = None" by blast
    with stomp show ?thesis by (simp add: enemies_loop_stomp)
  next
    case hit
    then show ?thesis by (simp add: enemies_loop_hit)
  qed
qed

lemma enemies_loop_one_stomp:
  assumes "\<forall>e' \<in> set es1. \<not> enemy_touches pls pr e'"
    and "\<forall>e' \<in> set es2. \<not> enemy_touches pls pr e'"
    and "enemy_touches pls pr e" and "stomps p (enemy_patrol pls e)"
  shows "enemies_loop pls pr (es1 @ e # es2) p sc =
     Some (map (enemy_step pls) es1 @ (enemy_patrol pls e)\<lparr>e_alive := False\<rparr> #
             map (enemy_step pls) es2, p\<lparr>p_vy := - 8\<rparr>, sc + 200)"
  using assms(1)
proof (induction es1)
  case Nil
  from assms(3,4) enemies_loop_untouched [OF assms(2)] show ?case
    by (simp add: enemies_loop_stomp enemy_touches_def)
next
  case (Cons a es1)
  then have rest: "enemies_loop pls pr (es1 @ e # es2) p sc =
     Some (map (enemy_step pls) es1 @ (enemy_patrol pls e)\<lparr>e_alive := False\<rparr> #
             map (enemy_step pls) es2, p\<lparr>p_vy := - 8\<rparr>, sc + 200)"
    by simp
  from Cons.prems have na: "\<not> enemy_touches pls pr a" by simp
  show ?case
  proof (cases "e_alive a")
    case True
    with na have "\<not> rects_overlap pr (enemy_rect (enemy_patrol pls a))"
      by (simp add: enemy_touches_def)
    with True rest show ?thesis by (simp add: enemies_loop_miss enemy_step_def)
  next
    case False
    with rest show ?thesis by (simp add: enemies_loop_dead enemy_step_def)
  qed
qed

lemma on_key_up_enemies: "enemies (on_key_up k g) = enemies g"
  by (simp add: on_key_up_def Let_def)

lemma update_physics_one_enemy:
  "length (enemies g) = 1 \<Longrightarrow> length (enemies (update_physics g)) = 1"
proof (cases "tick_resets g")
  case True
  then show ?thesis by (simp add: update_physics_reset reset_level_def)
next
  case False
  assume "length (enemies g) = 1"
  with list_all2_lengthD [OF tick_cont_facts(2) [OF False]] show ?thesis by simp
qed

lemma run_one_enemy: "length (enemies g) = 1 \<Longrightarrow> length (enemies (run g evs)) = 1"
proof (induction g evs rule: run.induct)
  case (1 g)
  then show ?case by simp
next
  case (2 g evs)
  then show ?case by (simp add: update_physics_one_enemy)
next
  case (3 g k evs)
  then show ?case by (simp add: on_key_up_enemies)
next
  case (4 g k evs)
  have r: "length (enemies (reset_level g)) = 1" by (simp add: reset_level_def)
  show ?case
    using on_key_cases [of k g] "4.IH" "4.prems" r
    by (auto split: option.splits)
qed

lemma enemy_step_alive: "e_alive (enemy_step pls e) = e_alive e"
  by (simp add: enemy_step_def)

lemma loop_is_spec_order:
  "enemies_loop pls pr es p sc = spec_enemy_interactions pr (map (enemy_step pls) es) p sc"
proof (induction es arbitrary: p sc)
  case Nil
  then show ?case by simp
next
  case (Cons e es)
  show ?case
  proof (cases rule: enemies_loop_cases [where e = e and pr = pr and pls = pls and p = p])
    case dead
    then show ?thesis
      by (simp add: enemies_loop_dead enemy_step_def Cons.IH split: option.split)
  next
    case miss
    then show ?thesis
      by (simp add: enemies_loop_miss enemy_step_def Cons.IH split: option.split)
  next
    case stomp
    then show ?thesis
      by (simp add: enemies_loop_stomp enemy_step_def Cons.IH split: option.split)
  next
    case hit
    then show ?thesis
      by (simp add: enemies_loop_hit enemy_step_def)
  qed
qed

lemma stomp_demo_tick:
  "enemy_touches (platforms (new_game\<lparr>player :=
        \<lparr>p_x = 520, p_y = 304, p_w = 24, p_h = 32, p_vx = 0, p_vy = 4, on_ground = False\<rparr>\<rparr>))
     (player_rect (tick_player (new_game\<lparr>player :=
        \<lparr>p_x = 520, p_y = 304, p_w = 24, p_h = 32, p_vx = 0, p_vy = 4, on_ground = False\<rparr>\<rparr>)))
     \<lparr>e_x = 520, e_y = 340, e_w = 28, e_h = 20, e_vx = - 1, e_alive = True\<rparr>"
  "stomps (tick_player (new_game\<lparr>player :=
        \<lparr>p_x = 520, p_y = 304, p_w = 24, p_h = 32, p_vx = 0, p_vy = 4, on_ground = False\<rparr>\<rparr>))
     (enemy_patrol (platforms (new_game\<lparr>player :=
        \<lparr>p_x = 520, p_y = 304, p_w = 24, p_h = 32, p_vx = 0, p_vy = 4, on_ground = False\<rparr>\<rparr>))
       \<lparr>e_x = 520, e_y = 340, e_w = 28, e_h = 20, e_vx = - 1, e_alive = True\<rparr>)"
  by code_simp+

lemma death_demo_tick:
  "enemy_touches (platforms (new_game\<lparr>player :=
        \<lparr>p_x = 520, p_y = 328, p_w = 24, p_h = 32, p_vx = 0, p_vy = 0, on_ground = False\<rparr>\<rparr>))
     (player_rect (tick_player (new_game\<lparr>player :=
        \<lparr>p_x = 520, p_y = 328, p_w = 24, p_h = 32, p_vx = 0, p_vy = 0, on_ground = False\<rparr>\<rparr>)))
     \<lparr>e_x = 520, e_y = 340, e_w = 28, e_h = 20, e_vx = - 1, e_alive = True\<rparr>"
  "\<not> stomps (tick_player (new_game\<lparr>player :=
        \<lparr>p_x = 520, p_y = 328, p_w = 24, p_h = 32, p_vx = 0, p_vy = 0, on_ground = False\<rparr>\<rparr>))
     (enemy_patrol (platforms (new_game\<lparr>player :=
        \<lparr>p_x = 520, p_y = 328, p_w = 24, p_h = 32, p_vx = 0, p_vy = 0, on_ground = False\<rparr>\<rparr>))
       \<lparr>e_x = 520, e_y = 340, e_w = 28, e_h = 20, e_vx = - 1, e_alive = True\<rparr>)"
  by code_simp+

subsection \<open>The run that holds Right and Jump, tick by tick\<close>

lemma level_platforms:
  "ground_blocks @ floating_platforms =
    [(0, 360, 80, 120), (80, 360, 80, 120), (160, 360, 80, 120), (240, 360, 80, 120),
     (320, 360, 80, 120), (400, 360, 80, 120), (480, 360, 80, 120), (560, 360, 80, 120),
     (640, 360, 80, 120), (720, 360, 80, 120), (800, 360, 80, 120), (880, 360, 80, 120),
     (960, 360, 80, 120), (1040, 360, 80, 120), (1120, 360, 80, 120), (1200, 360, 80, 120),
     (1280, 360, 80, 120), (1360, 360, 80, 120), (1440, 360, 80, 120), (1520, 360, 80, 120),
     (220, 300, 80, 16), (320, 260, 80, 16), (420, 220, 80, 16),
     (600, 300, 80, 16), (700, 260, 80, 16), (820, 220, 80, 16),
     (980, 280, 80, 16), (1080, 240, 80, 16), (1180, 200, 80, 16)]"
  by (simp add: ground_blocks_def floating_platforms_def upt_rec)

lemma level_clear:
  assumes "y2 \<le> 360" "x2 \<le> 220"
  shows "\<forall>pl \<in> set (ground_blocks @ floating_platforms).
           \<not> rects_overlap (x1, y1, x2, y2) (platform_rect pl)"
  unfolding level_platforms using assms by (simp add: platform_rect_def)

lemma far_coin:
  assumes "x1 \<le> x2" "x2 + r < cx" "0 \<le> r"
  shows "\<not> rect_circle_overlap (x1, y1, x2, y2) (cx, cy, r)"
proof -
  have near: "clamp cx x1 x2 = x2" using assms by (simp add: clamp_def)
  have "r * r < (cx - x2) * (cx - x2)"
    using assms by (intro mult_strict_mono) auto
  moreover have "0 \<le> (cy - clamp cy y1 y2) * (cy - clamp cy y1 y2)" by simp
  ultimately have "r * r < (cx - x2) * (cx - x2) +
      (cy - clamp cy y1 y2) * (cy - clamp cy y1 y2)" by linarith
  then show ?thesis by (simp add: near Let_def not_le)
qed

lemma collect_coins_none:
  "\<forall>c \<in> set cs. \<not> rect_circle_overlap pr (c_x c, c_y c, c_r c) \<Longrightarrow>
   collect_coins pr cs sc = (cs, sc)"
  by (induction cs) simp_all

lemma coins_clear:
  assumes "x1 \<le> x2" "x2 \<le> 220"
  shows "collect_coins (x1, y1, x2, y2) initial_coins sc = (initial_coins, sc)"
proof (rule collect_coins_none)
  show "\<forall>c \<in> set initial_coins. \<not> rect_circle_overlap (x1, y1, x2, y2) (c_x c, c_y c, c_r c)"
    unfolding initial_coins_def using assms
    by (simp add: far_coin del: rect_circle_overlap.simps)
qed

lemma enemy_walks:
  assumes "470 \<le> ex" "ex \<le> 520"
  shows "enemy_patrol (ground_blocks @ floating_platforms)
           \<lparr>e_x = ex, e_y = 340, e_w = 28, e_h = 20, e_vx = - 1, e_alive = True\<rparr> =
         \<lparr>e_x = ex - 1, e_y = 340, e_w = 28, e_h = 20, e_vx = - 1, e_alive = True\<rparr>"
proof -
  let ?e = "\<lparr>e_x = ex - 1, e_y = 340, e_w = 28, e_h = 20, e_vx = - 1, e_alive = True\<rparr>"
  have nw: "\<not> spec_wall_hit (ground_blocks @ floating_platforms) ?e"
    unfolding level_platforms spec_wall_hit_def by simp
  have "(480, 360, 80, 120) \<in> set (ground_blocks @ floating_platforms)"
    unfolding level_platforms by simp
  then have gb: "spec_ground_beneath (ground_blocks @ floating_platforms) ?e"
    unfolding spec_ground_beneath_def Let_def using assms
    by (intro bexI [where x = "(480, 360, 80, 120)"]) auto
  show ?thesis
    using nw gb by (simp add: enemy_patrol_eq)
qed

lemma airborne_fields:
  "platforms (airborne x y vx vy ex) = ground_blocks @ floating_platforms"
  "coins (airborne x y vx vy ex) = initial_coins"
  "score (airborne x y vx vy ex) = 0"
  "scroll_x (airborne x y vx vy ex) = 0"
  "keys (airborne x y vx vy ex) = \<lparr>k_left = False, k_right = True, k_jump = True\<rparr>"
  "goal (airborne x y vx vy ex) = \<lparr>g_x = 1400, g_y = 280, g_w = 12, g_h = 120\<rparr>"
  "\<not> win (airborne x y vx vy ex)"
  "player (airborne x y vx vy ex) =
     \<lparr>p_x = x, p_y = y, p_w = 24, p_h = 32, p_vx = vx, p_vy = vy, on_ground = False\<rparr>"
  "enemies (airborne x y vx vy ex) =
     [\<lparr>e_x = ex, e_y = 340, e_w = 28, e_h = 20, e_vx = - 1, e_alive = True\<rparr>]"
  by (simp_all add: airborne_def new_game_def reset_level_def)

lemma airborne_update:
  "(airborne x y vx vy ex)\<lparr>player := \<lparr>p_x = x', p_y = y', p_w = 24, p_h = 32, p_vx = vx',
        p_vy = vy', on_ground = False\<rparr>,
      scroll_x := 0, coins := initial_coins,
      enemies := [\<lparr>e_x = ex', e_y = 340, e_w = 28, e_h = 20, e_vx = - 1, e_alive = True\<rparr>],
      score := 0, win := False\<rparr> = airborne x' y' vx' vy' ex'"
  by (simp add: airborne_def new_game_def reset_level_def)

lemma free_tick:
  assumes vx': "vx' = clamp ((vx + 0.8) * 0.9) (- 4) 4"
    and vy': "vy' = clamp (vy + 0.8) (- 12) 12"
    and h: "y + 32 \<le> 360" and v: "y + vy' + 32 \<le> 360"
    and x: "x + vx' + 24 \<le> 220"
    and ex: "470 \<le> ex" "ex \<le> 520"
  shows "update_physics (airborne x y vx vy ex) = airborne (x + vx') (y + vy') vx' vy' (ex - 1)"
proof -
  let ?g = "airborne x y vx vy ex"
  let ?L = "ground_blocks @ floating_platforms"
  let ?p1 = "\<lparr>p_x = x, p_y = y, p_w = 24, p_h = 32, p_vx = vx', p_vy = vy', on_ground = False\<rparr>"
  let ?p2 = "\<lparr>p_x = x + vx', p_y = y, p_w = 24, p_h = 32, p_vx = vx', p_vy = vy', on_ground = False\<rparr>"
  let ?p3 = "\<lparr>p_x = x + vx', p_y = y + vy', p_w = 24, p_h = 32, p_vx = vx', p_vy = vy',
      on_ground = False\<rparr>"
  let ?e = "\<lparr>e_x = ex, e_y = 340, e_w = 28, e_h = 20, e_vx = - 1, e_alive = True\<rparr>"
  let ?e' = "\<lparr>e_x = ex - 1, e_y = 340, e_w = 28, e_h = 20, e_vx = - 1, e_alive = True\<rparr>"
  have i: "integrate_velocity (keys ?g) (player ?g) = ?p1"
    by (simp add: airborne_fields integrate_velocity_def Let_def vx' vy')
  have hp: "move_and_collide ?L ?p1 vx' 0 = ?p2"
    using level_clear [of "y + 32" "x + vx' + 24" "x + vx'" y] h x
    by (subst move_and_collide_free) (simp_all add: player_rect_def)
  have vp: "move_and_collide ?L ?p2 0 vy' = ?p3"
    using level_clear [of "y + vy' + 32" "x + vx' + 24" "x + vx'" "y + vy'"] v x
    by (subst move_and_collide_free) (simp_all add: player_rect_def)
  have tp: "tick_player ?g = ?p3"
    by (simp add: tick_player_def collide_player_def Let_def i hp vp airborne_fields(1)
        apply_jump_def)
  have pr: "player_rect ?p3 = (x + vx', y + vy', x + vx' + 24, y + vy' + 32)"
    by (simp add: player_rect_def)
  have cc: "collect_coins (player_rect ?p3) initial_coins 0 = (initial_coins, 0)"
    unfolding pr using x by (intro coins_clear) simp_all
  have cs: "coin_score ?g = 0"
    by (simp add: coin_score_def tp cc airborne_fields)
  have nt: "\<forall>e \<in> set [?e]. \<not> enemy_touches ?L (player_rect ?p3) e"
    using x ex by (simp add: enemy_touches_def enemy_walks enemy_rect_def pr)
  have loop: "enemies_loop (platforms ?g) (player_rect (tick_player ?g)) (enemies ?g)
      (tick_player ?g) (coin_score ?g) = Some ([?e'], ?p3, 0)"
    using enemies_loop_untouched [OF nt, of ?p3 0] ex
    by (simp add: airborne_fields tp cs enemy_step_def enemy_walks)
  have sc: "scroll_update 0 (x + vx') = 0"
    using x by (simp add: scroll_update_def Let_def clamp_def W_def)
  have gl: "\<not> rects_overlap (player_rect ?p3) (goal_rect \<lparr>g_x = 1400, g_y = 280, g_w = 12, g_h = 120\<rparr>)"
    unfolding pr using x by (simp add: goal_rect_def)
  show ?thesis
    unfolding update_physics_cont [OF loop]
    by (simp add: tp cc sc gl airborne_fields airborne_update)
qed

lemma start_state:
  "run new_game (KeyPress ''right'' # KeyPress ''space'' # evs) = run (airborne 80 320 0 0 520) evs"
  by (simp add: on_key_def Let_def airborne_def new_game_def reset_level_def blank_game_def)

lemma tick_1:
  "update_physics (airborne 80 320 0 0 520) =
     airborne (2018 / 25) (1604 / 5) (18 / 25) (4 / 5) 519"
proof -
  have "update_physics (airborne 80 320 0 0 520) =
     airborne (80 + (18 / 25)) (320 + (4 / 5)) (18 / 25) (4 / 5) (520 - 1)"
    by (rule free_tick) (simp_all add: clamp_def)
  then show ?thesis by simp
qed

lemma tick_2:
  "update_physics (airborne (2018 / 25) (1604 / 5) (18 / 25) (4 / 5) 519) =
     airborne (10261 / 125) (1612 / 5) (171 / 125) (8 / 5) 518"
proof -
  have "update_physics (airborne (2018 / 25) (1604 / 5) (18 / 25) (4 / 5) 519) =
     airborne ((2018 / 25) + (171 / 125)) ((1604 / 5) + (8 / 5)) (171 / 125) (8 / 5) (519 - 1)"
    by (rule free_tick) (simp_all add: clamp_def)
  then show ?thesis by simp
qed

lemma tick_3:
  "update_physics (airborne (10261 / 125) (1612 / 5) (171 / 125) (8 / 5) 518) =
     airborne (105049 / 1250) (1624 / 5) (2439 / 1250) (12 / 5) 517"
proof -
  have "update_physics (airborne (10261 / 125) (1612 / 5) (171 / 125) (8 / 5) 518) =
     airborne ((10261 / 125) + (2439 / 1250)) ((1612 / 5) + (12 / 5)) (2439 / 1250) (12 / 5) (518 - 1)"
    by (rule free_tick) (simp_all add: clamp_def)
  then show ?thesis by simp
qed

lemma tick_4:
  "update_physics (airborne (105049 / 1250) (1624 / 5) (2439 / 1250) (12 / 5) 517) =
     airborne (1081441 / 12500) 328 (30951 / 12500) (16 / 5) 516"
proof -
  have "update_physics (airborne (105049 / 1250) (1624 / 5) (2439 / 1250) (12 / 5) 517) =
     airborne ((105049 / 1250) + (30951 / 12500)) ((1624 / 5) + (16 / 5)) (30951 / 12500) (16 / 5) (517 - 1)"
    by (rule free_tick) (simp_all add: clamp_def)
  then show ?thesis by simp
qed

lemma tick_5:
  "update_physics (airborne (1081441 / 12500) 328 (30951 / 12500) (16 / 5) 516) =
     airborne (11182969 / 125000) 328 (368559 / 125000) (- 10) 515"
  by code_simp

lemma tick_6:
  "update_physics (airborne (11182969 / 125000) 328 (368559 / 125000) (- 10) 515) =
     airborne (116046721 / 1250000) (1594 / 5) (4217031 / 1250000) (- (46 / 5)) 514"
proof -
  have "update_physics (airborne (11182969 / 125000) 328 (368559 / 125000) (- 10) 515) =
     airborne ((11182969 / 125000) + (4217031 / 1250000)) (328 + (- (46 / 5))) (4217031 / 1250000) (- (46 / 5)) (515 - 1)"
    by (rule free_tick) (simp_all add: clamp_def)
  then show ?thesis by simp
qed

lemma tick_7:
  "update_physics (airborne (116046721 / 1250000) (1594 / 5) (4217031 / 1250000) (- (46 / 5)) 514) =
     airborne (1207420489 / 12500000) (1552 / 5) (46953279 / 12500000) (- (42 / 5)) 513"
proof -
  have "update_physics (airborne (116046721 / 1250000) (1594 / 5) (4217031 / 1250000) (- (46 / 5)) 514) =
     airborne ((116046721 / 1250000) + (46953279 / 12500000)) ((1594 / 5) + (- (42 / 5))) (46953279 / 12500000) (- (42 / 5)) (514 - 1)"
    by (rule free_tick) (simp_all add: clamp_def)
  then show ?thesis by simp
qed

lemma tick_8:
  "update_physics (airborne (1207420489 / 12500000) (1552 / 5) (46953279 / 12500000) (- (42 / 5)) 513) =
     airborne (1257420489 / 12500000) (1514 / 5) 4 (- (38 / 5)) 512"
proof -
  have "update_physics (airborne (1207420489 / 12500000) (1552 / 5) (46953279 / 12500000) (- (42 / 5)) 513) =
     airborne ((1207420489 / 12500000) + 4) ((1552 / 5) + (- (38 / 5))) 4 (- (38 / 5)) (513 - 1)"
    by (rule free_tick) (simp_all add: clamp_def)
  then show ?thesis by simp
qed

lemma tick_9:
  "update_physics (airborne (1257420489 / 12500000) (1514 / 5) 4 (- (38 / 5)) 512) =
     airborne (1307420489 / 12500000) 296 4 (- (34 / 5)) 511"
proof -
  have "update_physics (airborne (1257420489 / 12500000) (1514 / 5) 4 (- (38 / 5)) 512) =
     airborne ((1257420489 / 12500000) + 4) ((1514 / 5) + (- (34 / 5))) 4 (- (34 / 5)) (512 - 1)"
    by (rule free_tick) (simp_all add: clamp_def)
  then show ?thesis by simp
qed

lemma tick_10:
  "update_physics (airborne (1307420489 / 12500000) 296 4 (- (34 / 5)) 511) =
     airborne (1357420489 / 12500000) 290 4 (- 6) 510"
proof -
  have "update_physics (airborne (1307420489 / 12500000) 296 4 (- (34 / 5)) 511) =
     airborne ((1307420489 / 12500000) + 4) (296 + (- 6)) 4 (- 6) (511 - 1)"
    by (rule free_tick) (simp_all add: clamp_def)
  then show ?thesis by simp
qed

lemma tick_11:
  "update_physics (airborne (1357420489 / 12500000) 290 4 (- 6) 510) =
     airborne (1407420489 / 12500000) (1424 / 5) 4 (- (26 / 5)) 509"
proof -
  have "update_physics (airborne (1357420489 / 12500000) 290 4 (- 6) 510) =
     airborne ((1357420489 / 12500000) + 4) (290 + (- (26 / 5))) 4 (- (26 / 5)) (510 - 1)"
    by (rule free_tick) (simp_all add: clamp_def)
  then show ?thesis by simp
qed

lemma tick_12:
  "update_physics (airborne (1407420489 / 12500000) (1424 / 5) 4 (- (26 / 5)) 509) =
     airborne (1457420489 / 12500000) (1402 / 5) 4 (- (22 / 5)) 508"
proof -
  have "update_physics (airborne (1407420489 / 12500000) (1424 / 5) 4 (- (26 / 5)) 509) =
     airborne ((1407420489 / 12500000) + 4) ((1424 / 5) + (- (22 / 5))) 4 (- (22 / 5)) (509 - 1)"
    by (rule free_tick) (simp_all add: clamp_def)
  then show ?thesis by simp
qed

lemma tick_13:
  "update_physics (airborne (1457420489 / 12500000) (1402 / 5) 4 (- (22 / 5)) 508) =
     airborne (1507420489 / 12500000) (1384 / 5) 4 (- (18 / 5)) 507"
proof -
  have "update_physics (airborne (1457420489 / 12500000) (1402 / 5) 4 (- (22 / 5)) 508) =
     airborne ((1457420489 / 12500000) + 4) ((1402 / 5) + (- (18 / 5))) 4 (- (18 / 5)) (508 - 1)"
    by (rule free_tick) (simp_all add: clamp_def)
  then show ?thesis by simp
qed

lemma tick_14:
  "update_physics (airborne (1507420489 / 12500000) (1384 / 5) 4 (- (18 / 5)) 507) =
     airborne (1557420489 / 12500000) 274 4 (- (14 / 5)) 506"
proof -
  have "update_physics (airborne (1507420489 / 12500000) (1384 / 5) 4 (- (18 / 5)) 507) =
     airborne ((1507420489 / 12500000) + 4) ((1384 / 5) + (- (14 / 5))) 4 (- (14 / 5)) (507 - 1)"
    by (rule free_tick) (simp_all add: clamp_def)
  then show ?thesis by simp
qed

lemma tick_15:
  "update_physics (airborne (1557420489 / 12500000) 274 4 (- (14 / 5)) 506) =
     airborne (1607420489 / 12500000) 272 4 (- 2) 505"
proof -
  have "update_physics (airborne (1557420489 / 12500000) 274 4 (- (14 / 5)) 506) =
     airborne ((1557420489 / 12500000) + 4) (274 + (- 2)) 4 (- 2) (506 - 1)"
    by (rule free_tick) (simp_all add: clamp_def)
  then show ?thesis by simp
qed

lemma tick_16:
  "update_physics (airborne (1607420489 / 12500000) 272 4 (- 2) 505) =
     airborne (1657420489 / 12500000) (1354 / 5) 4 (- (6 / 5)) 504"
proof -
  have "update_physics (airborne (1607420489 / 12500000) 272 4 (- 2) 505) =
     airborne ((1607420489 / 12500000) + 4) (272 + (- (6 / 5))) 4 (- (6 / 5)) (505 - 1)"
    by (rule free_tick) (simp_all add: clamp_def)
  then show ?thesis by simp
qed

lemma tick_17:
  "update_physics (airborne (1657420489 / 12500000) (1354 / 5) 4 (- (6 / 5)) 504) =
     airborne (1707420489 / 12500000) (1352 / 5) 4 (- (2 / 5)) 503"
proof -
  have "update_physics (airborne (1657420489 / 12500000) (1354 / 5) 4 (- (6 / 5)) 504) =
     airborne ((1657420489 / 12500000) + 4) ((1354 / 5) + (- (2 / 5))) 4 (- (2 / 5)) (504 - 1)"
    by (rule free_tick) (simp_all add: clamp_def)
  then show ?thesis by simp
qed

lemma tick_18:
  "update_physics (airborne (1707420489 / 12500000) (1352 / 5) 4 (- (2 / 5)) 503) =
     airborne (1757420489 / 12500000) (1354 / 5) 4 (2 / 5) 502"
proof -
  have "update_physics (airborne (1707420489 / 12500000) (1352 / 5) 4 (- (2 / 5)) 503) =
     airborne ((1707420489 / 12500000) + 4) ((1352 / 5) + (2 / 5)) 4 (2 / 5) (503 - 1)"
    by (rule free_tick) (simp_all add: clamp_def)
  then show ?thesis by simp
qed

lemma tick_19:
  "update_physics (airborne (1757420489 / 12500000) (1354 / 5) 4 (2 / 5) 502) =
     airborne (1807420489 / 12500000) 272 4 (6 / 5) 501"
proof -
  have "update_physics (airborne (1757420489 / 12500000) (1354 / 5) 4 (2 / 5) 502) =
     airborne ((1757420489 / 12500000) + 4) ((1354 / 5) + (6 / 5)) 4 (6 / 5) (502 - 1)"
    by (rule free_tick) (simp_all add: clamp_def)
  then show ?thesis by simp
qed

lemma tick_20:
  "update_physics (airborne (1807420489 / 12500000) 272 4 (6 / 5) 501) =
     airborne (1857420489 / 12500000) 274 4 2 500"
proof -
  have "update_physics (airborne (1807420489 / 12500000) 272 4 (6 / 5) 501) =
     airborne ((1807420489 / 12500000) + 4) (272 + 2) 4 2 (501 - 1)"
    by (rule free_tick) (simp_all add: clamp_def)
  then show ?thesis by simp
qed

lemma tick_21:
  "update_physics (airborne (1857420489 / 12500000) 274 4 2 500) =
     airborne (1907420489 / 12500000) (1384 / 5) 4 (14 / 5) 499"
proof -
  have "update_physics (airborne (1857420489 / 12500000) 274 4 2 500) =
     airborne ((1857420489 / 12500000) + 4) (274 + (14 / 5)) 4 (14 / 5) (500 - 1)"
    by (rule free_tick) (simp_all add: clamp_def)
  then show ?thesis by simp
qed

lemma tick_22:
  "update_physics (airborne (1907420489 / 12500000) (1384 / 5) 4 (14 / 5) 499) =
     airborne (1957420489 / 12500000) (1402 / 5) 4 (18 / 5) 498"
proof -
  have "update_physics (airborne (1907420489 / 12500000) (1384 / 5) 4 (14 / 5) 499) =
     airborne ((1907420489 / 12500000) + 4) ((1384 / 5) + (18 / 5)) 4 (18 / 5) (499 - 1)"
    by (rule free_tick) (simp_all add: clamp_def)
  then show ?thesis by simp
qed

lemma tick_23:
  "update_physics (airborne (1957420489 / 12500000) (1402 / 5) 4 (18 / 5) 498) =
     airborne (2007420489 / 12500000) (1424 / 5) 4 (22 / 5) 497"
proof -
  have "update_physics (airborne (1957420489 / 12500000) (1402 / 5) 4 (18 / 5) 498) =
     airborne ((1957420489 / 12500000) + 4) ((1402 / 5) + (22 / 5)) 4 (22 / 5) (498 - 1)"
    by (rule free_tick) (simp_all add: clamp_def)
  then show ?thesis by simp
qed

lemma tick_24:
  "update_physics (airborne (2007420489 / 12500000) (1424 / 5) 4 (22 / 5) 497) =
     airborne (2057420489 / 12500000) 290 4 (26 / 5) 496"
proof -
  have "update_physics (airborne (2007420489 / 12500000) (1424 / 5) 4 (22 / 5) 497) =
     airborne ((2007420489 / 12500000) + 4) ((1424 / 5) + (26 / 5)) 4 (26 / 5) (497 - 1)"
    by (rule free_tick) (simp_all add: clamp_def)
  then show ?thesis by simp
qed

lemma tick_25:
  "update_physics (airborne (2057420489 / 12500000) 290 4 (26 / 5) 496) =
     airborne (2107420489 / 12500000) 296 4 6 495"
proof -
  have "update_physics (airborne (2057420489 / 12500000) 290 4 (26 / 5) 496) =
     airborne ((2057420489 / 12500000) + 4) (290 + 6) 4 6 (496 - 1)"
    by (rule free_tick) (simp_all add: clamp_def)
  then show ?thesis by simp
qed

lemma tick_26:
  "update_physics (airborne (2107420489 / 12500000) 296 4 6 495) =
     airborne (2157420489 / 12500000) (1514 / 5) 4 (34 / 5) 494"
proof -
  have "update_physics (airborne (2107420489 / 12500000) 296 4 6 495) =
     airborne ((2107420489 / 12500000) + 4) (296 + (34 / 5)) 4 (34 / 5) (495 - 1)"
    by (rule free_tick) (simp_all add: clamp_def)
  then show ?thesis by simp
qed

lemma tick_27:
  "update_physics (airborne (2157420489 / 12500000) (1514 / 5) 4 (34 / 5) 494) =
     airborne (2207420489 / 12500000) (1552 / 5) 4 (38 / 5) 493"
proof -
  have "update_physics (airborne (2157420489 / 12500000) (1514 / 5) 4 (34 / 5) 494) =
     airborne ((2157420489 / 12500000) + 4) ((1514 / 5) + (38 / 5)) 4 (38 / 5) (494 - 1)"
    by (rule free_tick) (simp_all add: clamp_def)
  then show ?thesis by simp
qed

lemma tick_28:
  "update_physics (airborne (2207420489 / 12500000) (1552 / 5) 4 (38 / 5) 493) =
     airborne (2257420489 / 12500000) (1594 / 5) 4 (42 / 5) 492"
proof -
  have "update_physics (airborne (2207420489 / 12500000) (1552 / 5) 4 (38 / 5) 493) =
     airborne ((2207420489 / 12500000) + 4) ((1552 / 5) + (42 / 5)) 4 (42 / 5) (493 - 1)"
    by (rule free_tick) (simp_all add: clamp_def)
  then show ?thesis by simp
qed

lemma tick_29:
  "update_physics (airborne (2257420489 / 12500000) (1594 / 5) 4 (42 / 5) 492) =
     airborne (2307420489 / 12500000) 328 4 (46 / 5) 491"
proof -
  have "update_physics (airborne (2257420489 / 12500000) (1594 / 5) 4 (42 / 5) 492) =
     airborne ((2257420489 / 12500000) + 4) ((1594 / 5) + (46 / 5)) 4 (46 / 5) (492 - 1)"
    by (rule free_tick) (simp_all add: clamp_def)
  then show ?thesis by simp
qed

lemma tick_30:
  "update_physics (airborne (2307420489 / 12500000) 328 4 (46 / 5) 491) =
     airborne (2357420489 / 12500000) 328 4 (- 10) 490"
  by code_simp

lemma tick_31:
  "update_physics (airborne (2357420489 / 12500000) 328 4 (- 10) 490) =
     airborne (2407420489 / 12500000) (1594 / 5) 4 (- (46 / 5)) 489"
proof -
  have "update_physics (airborne (2357420489 / 12500000) 328 4 (- 10) 490) =
     airborne ((2357420489 / 12500000) + 4) (328 + (- (46 / 5))) 4 (- (46 / 5)) (490 - 1)"
    by (rule free_tick) (simp_all add: clamp_def)
  then show ?thesis by simp
qed

lemma tick_32:
  "update_physics (airborne (2407420489 / 12500000) (1594 / 5) 4 (- (46 / 5)) 489) =
     airborne (1232420489 / 6250000) (1552 / 5) 0 (- (42 / 5)) 488"
  by code_simp

lemma tick_32_collide:
  "collide_player (airborne (2407420489 / 12500000) (1594 / 5) 4 (- (46 / 5)) 489) =
     \<lparr>p_x = 1232420489 / 6250000, p_y = 1552 / 5, p_w = 24, p_h = 32, p_vx = 0,
       p_vy = - (42 / 5), on_ground = False\<rparr>"
  by code_simp

lemma run_31:
  "run new_game (hold_right_jump 31) =
     airborne (2407420489 / 12500000) (1594 / 5) 4 (- (46 / 5)) 489"
  unfolding hold_right_jump_def start_state
  by (simp add: eval_nat_numeral tick_1 tick_2 tick_3 tick_4 tick_5 tick_6 tick_7 tick_8 tick_9 tick_10 tick_11 tick_12 tick_13 tick_14 tick_15 tick_16 tick_17 tick_18 tick_19 tick_20 tick_21 tick_22 tick_23 tick_24 tick_25 tick_26 tick_27 tick_28 tick_29 tick_30 tick_31)

lemma run_32:
  "run new_game (hold_right_jump 32) =
     airborne (1232420489 / 6250000) (1552 / 5) 0 (- (42 / 5)) 488"
  unfolding hold_right_jump_def start_state
  by (simp add: eval_nat_numeral tick_1 tick_2 tick_3 tick_4 tick_5 tick_6 tick_7 tick_8 tick_9 tick_10 tick_11 tick_12 tick_13 tick_14 tick_15 tick_16 tick_17 tick_18 tick_19 tick_20 tick_21 tick_22 tick_23 tick_24 tick_25 tick_26 tick_27 tick_28 tick_29 tick_30 tick_31 tick_32)

subsection \<open>The goal is out of reach of the enemies\<close>

lemma resolve_platform_h: "p_h (resolve_platform pr dx dy p pl) = p_h p"
  by (cases pr; cases pl) (simp add: Let_def)

lemma resolve_platforms_h: "p_h (resolve_platforms pr dx dy pls p) = p_h p"
  by (induction pls arbitrary: p) (simp_all add: resolve_platform_h)

lemma move_and_collide_h: "p_h (move_and_collide pls p dx dy) = p_h p"
  by (simp add: move_and_collide_def Let_def resolve_platforms_h)

lemma tick_player_h: "p_h (tick_player g) = p_h (player g)"
  by (simp add: tick_player_def apply_jump_def collide_player_def Let_def
      move_and_collide_h integrate_velocity_def)

lemma goal_excludes_enemy:
  assumes "level_inv g"
    and "rects_overlap (player_rect (tick_player g)) (goal_rect (goal g))"
  shows "\<not> tick_resets g"
proof -
  from assms have low: "p_y (tick_player g) + p_h (tick_player g) < 340"
    by (simp add: level_inv_def player_rect_def goal_rect_def tick_player_h)
  have "\<forall>e \<in> set (enemies g).
      \<not> enemy_touches (platforms g) (player_rect (tick_player g)) e"
    using assms(1) low by (auto simp: level_inv_def enemy_touches_def enemy_rect_def player_rect_def)
  from enemies_loop_untouched [OF this] show ?thesis
    by (simp add: tick_resets_def)
qed

lemma enemy_after_y: "enemy_after pls e e' \<Longrightarrow> e_y e' = e_y e"
  by (auto simp: enemy_after_def split: if_splits)

lemma enemies_after_y:
  assumes "list_all2 (enemy_after pls) es es'" and "\<forall>e \<in> set es. e_y e = c"
  shows "\<forall>e \<in> set es'. e_y e = c"
  using assms by (induction rule: list_all2_induct) (auto dest: enemy_after_y)

lemma level_inv_reset: "level_inv (reset_level g)"
  by (simp add: level_inv_def reset_level_def)

lemma level_inv_tick: "level_inv g \<Longrightarrow> level_inv (update_physics g)"
proof (cases "tick_resets g")
  case True
  then show ?thesis by (simp add: update_physics_reset level_inv_reset)
next
  case False
  assume inv: "level_inv g"
  from False obtain es p' sc' where
    loop: "enemies_loop (platforms g) (player_rect (tick_player g)) (enemies g)
             (tick_player g) (coin_score g) = Some (es, p', sc')"
    by (rule not_resets_obtain)
  from enemies_loop_result [OF loop] have ph: "p_h p' = p_h (tick_player g)"
    and ea: "list_all2 (enemy_after (platforms g)) (enemies g) es"
    by auto
  from enemies_after_y [OF ea] inv have "\<forall>e \<in> set es. e_y e = 340"
    by (simp add: level_inv_def)
  with inv ph show ?thesis
    by (simp add: update_physics_cont [OF loop] level_inv_def tick_player_h)
qed

lemma level_inv_key_up: "level_inv (on_key_up k g) = level_inv g"
  by (simp add: on_key_up_def Let_def level_inv_def)

lemma level_inv_run: "level_inv g \<Longrightarrow> level_inv (run g evs)"
proof (induction g evs rule: run.induct)
  case (1 g)
  then show ?case by simp
next
  case (2 g evs)
  then show ?case by (simp add: level_inv_tick)
next
  case (3 g k evs)
  then show ?case by (simp add: level_inv_key_up)
next
  case (4 g k evs)
  have k: "\<And>ks. level_inv (g\<lparr>keys := ks\<rparr>) = level_inv g" by (simp add: level_inv_def)
  show ?case
    using on_key_cases [of k g] "4.IH" "4.prems" level_inv_reset [of g] k
    by (auto split: option.splits)
qed

lemma level_inv_goal_wins:
  assumes "level_inv g"
    and "rects_overlap (player_rect (tick_player g)) (goal_rect (goal g))"
  shows "win (update_physics g)"
  using goal_excludes_enemy [OF assms] assms(2) by (simp add: update_physics_win)

lemma level_inv_reachable: "level_inv (run new_game evs)"
  by (rule level_inv_run) (simp add: new_game_def level_inv_reset)

section \<open>Level generation and reset\<close>

text \<open>
  Claim C7. \<open>reset_level\<close> overwrites every simulation field with a fixed value: its result
  does not depend on the state it is called on, so any two invocations produce the same
  platforms, coins, enemies and goal; it seeds the generator with \<open>RNG_SEED\<close>, zeroes
  the score and the scroll offset, clears the won flag and puts the player body back to its
  initial values.
\<close>

theorem reset_level_deterministic:
  "reset_level g = reset_level g' \<and>
   platforms (reset_level g) = ground_blocks @ floating_platforms \<and>
   coins (reset_level g) = initial_coins \<and>
   enemies (reset_level g) =
     [\<lparr>e_x = 520, e_y = 340, e_w = 28, e_h = 20, e_vx = - 1, e_alive = True\<rparr>] \<and>
   goal (reset_level g) = \<lparr>g_x = 1400, g_y = 280, g_w = 12, g_h = 120\<rparr> \<and>
   rng (reset_level g) = RNG_SEED \<and>
   score (reset_level g) = 0 \<and> scroll_x (reset_level g) = 0 \<and> \<not> win (reset_level g) \<and>
   player (reset_level g) =
     \<lparr>p_x = 80, p_y = 320, p_w = 24, p_h = 32, p_vx = 0, p_vy = 0, on_ground = False\<rparr>"
  using reset_level_const [of g g'] by (simp add: reset_level_def)

section \<open>Velocity bounds\<close>

lemma bounce_vel_ok: "vel_ok p \<Longrightarrow> vel_ok (p\<lparr>p_vy := - 8\<rparr>)"
  by (simp add: vel_ok_def)

lemma enemies_loop_vel_ok:
  "enemies_loop pls pr es p sc = Some (es', p', sc') \<Longrightarrow> vel_ok p \<Longrightarrow> vel_ok p'"
proof (induction es arbitrary: p sc es' p' sc')
  case Nil
  then show ?case by simp
next
  case (Cons e es)
  show ?case
  proof (cases rule: enemies_loop_cases [where e = e and pr = pr and pls = pls and p = p])
    case dead
    with Cons.prems(1) obtain es1 where "enemies_loop pls pr es p sc = Some (es1, p', sc')"
      by (auto simp: enemies_loop_dead dest: ahead_Some)
    then show ?thesis using Cons.IH Cons.prems(2) by blast
  next
    case miss
    with Cons.prems(1) obtain es1 where "enemies_loop pls pr es p sc = Some (es1, p', sc')"
      by (auto simp: enemies_loop_miss dest: ahead_Some)
    then show ?thesis using Cons.IH Cons.prems(2) by blast
  next
    case stomp
    with Cons.prems(1) obtain es1 where
      "enemies_loop pls pr es (p\<lparr>p_vy := - 8\<rparr>) (sc + 200) = Some (es1, p', sc')"
      by (auto simp: enemies_loop_stomp dest: ahead_Some)
    then show ?thesis using Cons.IH bounce_vel_ok [OF Cons.prems(2)] by blast
  next
    case hit
    with Cons.prems(1) show ?thesis by (simp add: enemies_loop_hit)
  qed
qed

lemma update_physics_vel_ok: "vel_ok (player (update_physics g))"
proof (cases "tick_resets g")
  case True
  then show ?thesis by (simp add: update_physics_reset reset_level_vel_ok)
next
  case False
  then obtain es p' sc' where
    loop: "enemies_loop (platforms g) (player_rect (tick_player g)) (enemies g)
             (tick_player g) (coin_score g) = Some (es, p', sc')"
    by (rule not_resets_obtain)
  have "vel_ok p'"
    using enemies_loop_vel_ok [OF loop tick_player_vel_ok] .
  then show ?thesis by (simp add: update_physics_cont [OF loop])
qed

lemma run_vel_ok: "vel_ok (player g) \<Longrightarrow> vel_ok (player (run g evs))"
proof (induction g evs rule: run.induct)
  case (1 g)
  then show ?case by simp
next
  case (2 g evs)
  then show ?case by (simp add: update_physics_vel_ok)
next
  case (3 g k evs)
  then show ?case by (simp add: on_key_up_player)
next
  case (4 g k evs)
  show ?case
    using on_key_cases [of k g] "4.IH" "4.prems" reset_level_vel_ok [of g]
    by (auto split: option.splits)
qed

text \<open>
  Claim C4. After the velocity integration of a tick the player's \<open>vx\<close> lies in
  \<open>[-4, 4]\<close> and \<open>vy\<close> in \<open>[-12, 12]\<close>, and no later operation leaves these bounds: they
  hold after the two collision passes, after the jump, at the end of every tick (stomp bounce
  and reset included), after a reset, and hence after every sequence of key events and ticks,
  from the freshly constructed game and from any state that satisfies them.
\<close>

theorem velocity_bounds:
  "vel_ok (integrate_velocity ks p) \<and>
   vel_ok (collide_player g) \<and>
   vel_ok (tick_player g) \<and>
   vel_ok (player (update_physics g)) \<and>
   vel_ok (player (reset_level g)) \<and>
   vel_ok (player (run new_game evs)) \<and>
   (vel_ok (player g) \<longrightarrow> vel_ok (player (run g evs)))"
  by (simp add: integrate_velocity_ok collide_player_vel_ok tick_player_vel_ok
      update_physics_vel_ok reset_level_vel_ok run_vel_ok new_game_def)

theorem velocity_bounds_witness:
  "vel_ok (player new_game) \<and>
   vel_ok (player (run new_game [KeyPress ''right'', KeyPress ''space'', Tick, Tick]))"
proof -
  have start: "vel_ok (player new_game)"
    by (simp add: new_game_def reset_level_def vel_ok_def)
  from velocity_bounds [of "keys new_game" "player new_game" new_game
      "[KeyPress ''right'', KeyPress ''space'', Tick, Tick]"] start
  show ?thesis by blast
qed

section \<open>Camera\<close>

lemma update_physics_scroll:
  "0 \<le> scroll_x (update_physics g) \<and> scroll_x (update_physics g) \<le> 1600 - W"
proof (cases "tick_resets g")
  case True
  then show ?thesis by (simp add: update_physics_reset reset_level_def W_def)
next
  case False
  then obtain es p' sc' where
    loop: "enemies_loop (platforms g) (player_rect (tick_player g)) (enemies g)
             (tick_player g) (coin_score g) = Some (es, p', sc')"
    by (rule not_resets_obtain)
  show ?thesis using scroll_update_range by (simp add: update_physics_cont [OF loop])
qed

lemma scroll_update_dead_zone:
  assumes "0 \<le> sx" "sx \<le> 1600 - W"
  shows "(sx < scroll_update sx x \<longrightarrow> W * 0.6 < x - sx) \<and>
         (scroll_update sx x < sx \<longrightarrow> x - sx < W * 0.3)"
proof -
  consider "x - sx > 480" | "x - sx < 240" | "240 \<le> x - sx" "x - sx \<le> 480" by linarith
  then show ?thesis
  proof cases
    case 1
    then show ?thesis using assms
      by (simp add: scroll_update_def Let_def clamp_def W_def min_def max_def)
  next
    case 2
    then show ?thesis using assms
      by (simp add: scroll_update_def Let_def clamp_def W_def min_def max_def)
  next
    case 3
    then show ?thesis using assms
      by (simp add: scroll_update_def Let_def clamp_def W_def min_def max_def)
  qed
qed

text \<open>
  Claim C5. At the end of every tick the scroll offset lies in \<open>[0, 1600 - W]\<close>, which is
  \<open>[0, 800]\<close>; so does every result of the camera update. From an offset in that range the
  camera update increases the offset only when the player's on-screen x exceeds \<open>0.6 W\<close>
  and decreases it only when the on-screen x is below \<open>0.3 W\<close>.
\<close>

theorem scroll_offset_bounds:
  "0 \<le> scroll_x (update_physics g) \<and> scroll_x (update_physics g) \<le> 1600 - W \<and>
   1600 - W = 800 \<and>
   0 \<le> scroll_update sx x \<and> scroll_update sx x \<le> 1600 - W \<and>
   (0 \<le> sx \<and> sx \<le> 1600 - W \<longrightarrow>
      (sx < scroll_update sx x \<longrightarrow> W * 0.6 < x - sx) \<and>
      (scroll_update sx x < sx \<longrightarrow> x - sx < W * 0.3))"
  using update_physics_scroll [of g] scroll_update_range [of sx x]
    scroll_update_dead_zone [of sx x]
  by (simp add: W_def)

theorem scroll_offset_bounds_witness:
  "(0::real) \<le> 0 \<and> (0::real) \<le> 1600 - W \<and> 0 < scroll_update 0 500 \<and>
   W * 0.6 < 500 - 0 \<and> scroll_update 300 500 < 300 \<and> (500::real) - 300 < W * 0.3"
  using scroll_offset_bounds [of new_game 0 500] scroll_offset_bounds [of new_game 300 500]
  by (simp add: scroll_update_def Let_def clamp_def W_def)

section \<open>The overlap test\<close>

text \<open>
  Claim C10. For rectangles of positive width and height, \<open>_rects_overlap\<close> holds exactly when
  the intersection has strictly positive extent on both axes, so rectangles that only touch
  along an edge or at a corner do not overlap. Without an overlap nothing is triggered: a
  collision pass over platforms that the moved player does not overlap only moves the player;
  an enemy loop in which no living enemy overlaps the player neither stomps nor resets; and a
  tick without reset in which the player does not overlap the goal leaves the won flag as it
  was.
\<close>

theorem touching_is_not_overlap:
  "(proper_rect a \<and> proper_rect b \<longrightarrow>
      rects_overlap a b = (0 < overlap_w a b \<and> 0 < overlap_h a b)) \<and>
   ((\<forall>pl \<in> set pls. \<not> rects_overlap
        (player_rect (p\<lparr>p_x := p_x p + dx, p_y := p_y p + dy, on_ground := False\<rparr>))
        (platform_rect pl)) \<longrightarrow>
      move_and_collide pls p dx dy =
        p\<lparr>p_x := p_x p + dx, p_y := p_y p + dy, on_ground := False\<rparr>) \<and>
   ((\<forall>e \<in> set es. e_alive e \<longrightarrow> \<not> rects_overlap pr (enemy_rect (enemy_patrol pls e))) \<longrightarrow>
      enemies_loop pls pr es q sc = Some (map (enemy_step pls) es, q, sc)) \<and>
   (\<not> tick_resets g \<and> \<not> rects_overlap (player_rect (tick_player g)) (goal_rect (goal g)) \<longrightarrow>
      win (update_physics g) = win g)"
  using rects_overlap_proper [of a b]
    move_and_collide_free [where pls = pls and p = p and dx = dx and dy = dy]
    enemies_loop_untouched [where es = es and pls = pls and pr = pr and p = q and sc = sc]
    update_physics_win [of g]
  by (simp add: enemy_touches_def)

theorem touching_is_not_overlap_witness:
  "proper_rect (0, 0, 10, 10) \<and> proper_rect (10, 0, 20, 10) \<and>
   overlap_w (0, 0, 10, 10) (10, 0, 20, 10) = 0 \<and>
   \<not> rects_overlap (0, 0, 10, 10) (10, 0, 20, 10) \<and>
   move_and_collide [(0, 100, 50, 10)]
     \<lparr>p_x = 10, p_y = 60, p_w = 24, p_h = 32, p_vx = 0, p_vy = 8, on_ground = False\<rparr> 0 8 =
     \<lparr>p_x = 10, p_y = 68, p_w = 24, p_h = 32, p_vx = 0, p_vy = 8, on_ground = False\<rparr> \<and>
   enemies_loop [(0, 100, 50, 10)] (5, 68, 29, 100)
     [\<lparr>e_x = 30, e_y = 80, e_w = 28, e_h = 20, e_vx = - 1, e_alive = True\<rparr>]
     \<lparr>p_x = 5, p_y = 68, p_w = 24, p_h = 32, p_vx = 0, p_vy = 8, on_ground = False\<rparr> 0 =
     Some ([\<lparr>e_x = 29, e_y = 80, e_w = 28, e_h = 20, e_vx = - 1, e_alive = True\<rparr>],
       \<lparr>p_x = 5, p_y = 68, p_w = 24, p_h = 32, p_vx = 0, p_vy = 8, on_ground = False\<rparr>, 0) \<and>
   \<not> tick_resets new_game \<and> \<not> win (update_physics new_game)"
proof -
  let ?pl = "(0, 100, 50, 10) :: platform"
  let ?p = "\<lparr>p_x = 10, p_y = 60, p_w = 24, p_h = 32, p_vx = 0, p_vy = 8, on_ground = False\<rparr>"
  let ?q = "\<lparr>p_x = 5, p_y = 68, p_w = 24, p_h = 32, p_vx = 0, p_vy = 8, on_ground = False\<rparr>"
  let ?e = "\<lparr>e_x = 30, e_y = 80, e_w = 28, e_h = 20, e_vx = - 1, e_alive = True\<rparr>"
  have patrol: "enemy_patrol [?pl] ?e =
      \<lparr>e_x = 29, e_y = 80, e_w = 28, e_h = 20, e_vx = - 1, e_alive = True\<rparr>"
    by (simp add: enemy_patrol_def enemy_hits_edge_def Let_def)
  have goal_at: "goal new_game = \<lparr>g_x = 1400, g_y = 280, g_w = 12, g_h = 120\<rparr>"
    by (simp add: new_game_def reset_level_def)
  have goal_far: "\<not> rects_overlap (player_rect (tick_player new_game)) (goal_rect (goal new_game))"
    unfolding new_game_tick_player goal_at by (simp add: player_rect_def goal_rect_def)
  have nowin: "\<not> win new_game"
    by (simp add: new_game_def reset_level_def)
  from touching_is_not_overlap [where a = "(0, 0, 10, 10)" and b = "(10, 0, 20, 10)"
      and pls = "[?pl]" and p = ?p and dx = 0 and dy = 8 and es = "[?e]"
      and pr = "(5, 68, 29, 100)" and q = ?q and sc = 0 and g = new_game] patrol goal_far nowin new_game_no_reset
  show ?thesis
    by (simp add: player_rect_def platform_rect_def enemy_rect_def enemy_step_def)
qed

section \<open>Enemy patrol\<close>

text \<open>
  Claim C8. The patrol step of a living enemy first adds the current velocity to \<open>x\<close> and
  then negates the velocity exactly when, at the prospective next position, (a) the projected
  rectangle overlaps a platform on whose top the enemy does not stand, or (b) no platform
  lies beneath the horizontal centre; the position is advanced by the old velocity, so a
  reversal acts from the following step on. A dead enemy is skipped by the enemy loop: it
  stays as it is and the loop goes on as if it were absent. In a tick without reset every
  enemy that was dead is unchanged and every living one is its patrol step (possibly marked
  dead by a stomp).
\<close>

theorem enemy_patrol_step:
  "enemy_patrol pls e =
     e\<lparr>e_x := e_x e + e_vx e,
       e_vx := (if spec_wall_hit pls (e\<lparr>e_x := e_x e + e_vx e\<rparr>)
                   \<or> \<not> spec_ground_beneath pls (e\<lparr>e_x := e_x e + e_vx e\<rparr>)
                then - e_vx e else e_vx e)\<rparr> \<and>
   (\<not> e_alive e \<longrightarrow>
      enemies_loop pls pr (e # es) p sc =
        map_option (\<lambda>(es', p', sc'). (e # es', p', sc')) (enemies_loop pls pr es p sc)) \<and>
   (\<not> tick_resets g \<longrightarrow>
      length (enemies (update_physics g)) = length (enemies g) \<and>
      (\<forall>i < length (enemies g).
         if e_alive (enemies g ! i)
         then enemies (update_physics g) ! i = enemy_patrol (platforms g) (enemies g ! i) \<or>
              enemies (update_physics g) ! i =
                (enemy_patrol (platforms g) (enemies g ! i))\<lparr>e_alive := False\<rparr>
         else enemies (update_physics g) ! i = enemies g ! i))"
  using enemy_patrol_eq [of pls e] enemies_loop_dead [of e pls pr es p sc]
    enemies_after_nth [OF tick_cont_facts(2) [of g]]
  by blast

theorem enemy_patrol_step_witness:
  "\<not> e_alive \<lparr>e_x = 520, e_y = 340, e_w = 28, e_h = 20, e_vx = - 1, e_alive = False\<rparr> \<and>
   enemies_loop [] (0, 0, 1, 1)
     [\<lparr>e_x = 520, e_y = 340, e_w = 28, e_h = 20, e_vx = - 1, e_alive = False\<rparr>]
     \<lparr>p_x = 0, p_y = 0, p_w = 1, p_h = 1, p_vx = 0, p_vy = 0, on_ground = False\<rparr> 0 =
     Some ([\<lparr>e_x = 520, e_y = 340, e_w = 28, e_h = 20, e_vx = - 1, e_alive = False\<rparr>],
       \<lparr>p_x = 0, p_y = 0, p_w = 1, p_h = 1, p_vx = 0, p_vy = 0, on_ground = False\<rparr>, 0) \<and>
   \<not> tick_resets new_game \<and> (0::nat) < length (enemies new_game) \<and>
   e_alive (enemies new_game ! 0) \<and>
   (enemies (update_physics new_game) ! 0 = enemy_patrol (platforms new_game) (enemies new_game ! 0) \<or>
    enemies (update_physics new_game) ! 0 =
      (enemy_patrol (platforms new_game) (enemies new_game ! 0))\<lparr>e_alive := False\<rparr>) \<and>
   enemy_patrol [(0, 100, 50, 10)]
     \<lparr>e_x = - 13, e_y = 80, e_w = 28, e_h = 20, e_vx = - 1, e_alive = True\<rparr> =
     \<lparr>e_x = - 14, e_y = 80, e_w = 28, e_h = 20, e_vx = 1, e_alive = True\<rparr>"
proof -
  let ?d = "\<lparr>e_x = 520, e_y = 340, e_w = 28, e_h = 20, e_vx = - 1, e_alive = False\<rparr>"
  let ?q = "\<lparr>p_x = 0, p_y = 0, p_w = 1, p_h = 1, p_vx = 0, p_vy = 0, on_ground = False\<rparr>"
  let ?e = "\<lparr>e_x = - 13, e_y = 80, e_w = 28, e_h = 20, e_vx = - 1, e_alive = True\<rparr>"
  have en: "enemies new_game =
      [\<lparr>e_x = 520, e_y = 340, e_w = 28, e_h = 20, e_vx = - 1, e_alive = True\<rparr>]"
    by (simp add: new_game_def reset_level_def)
  have edge: "spec_wall_hit [(0, 100, 50, 10)] (?e\<lparr>e_x := e_x ?e + e_vx ?e\<rparr>) \<or>
      \<not> spec_ground_beneath [(0, 100, 50, 10)] (?e\<lparr>e_x := e_x ?e + e_vx ?e\<rparr>)"
    by (simp add: spec_ground_beneath_def)
  note thm1 = enemy_patrol_step [where pls = "[(0, 100, 50, 10)]" and e = ?e and g = new_game
      and pr = "(0, 0, 1, 1)" and es = "[]" and p = ?q and sc = 0]
  note thm2 = enemy_patrol_step [where pls = "[]" and e = ?d and g = new_game
      and pr = "(0, 0, 1, 1)" and es = "[]" and p = ?q and sc = 0]
  from thm1 edge have a: "enemy_patrol [(0, 100, 50, 10)] ?e =
      \<lparr>e_x = - 14, e_y = 80, e_w = 28, e_h = 20, e_vx = 1, e_alive = True\<rparr>"
    by simp
  from thm2 have b: "enemies_loop [] (0, 0, 1, 1) [?d] ?q 0 = Some ([?d], ?q, 0)"
    by simp
  from thm1 new_game_no_reset en have c:
    "enemies (update_physics new_game) ! 0 = enemy_patrol (platforms new_game) (enemies new_game ! 0) \<or>
     enemies (update_physics new_game) ! 0 =
       (enemy_patrol (platforms new_game) (enemies new_game ! 0))\<lparr>e_alive := False\<rparr>"
    by simp
  from a b c new_game_no_reset en show ?thesis by simp
qed

section \<open>Coins\<close>

text \<open>
  Claim C6. As long as no reset happens, a coin is either unchanged or has gone from alive to
  not alive: its alive flag never returns to true, so it changes at most once, and the coin
  list keeps its length. In a tick without reset the coin loop adds exactly 100 to the score
  for each coin that goes from alive to not alive (and the enemy loop 200 for each enemy
  stomped).
\<close>

theorem coin_pickup_once:
  "(\<not> tick_resets g \<longrightarrow>
      coin_score g = score g + 100 * (live_coins (coins g) - live_coins (coins (update_physics g))) \<and>
      score (update_physics g) =
        coin_score g +
        200 * (live_enemies (enemies g) - live_enemies (enemies (update_physics g)))) \<and>
   (no_reset g evs \<longrightarrow>
      length (coins (run g evs)) = length (coins g) \<and>
      (\<forall>i < length (coins g).
         coins (run g evs) ! i = coins g ! i \<or>
         (c_alive (coins g ! i) \<and> coins (run g evs) ! i = (coins g ! i)\<lparr>c_alive := False\<rparr>)))"
  using tick_cont_facts(3) [of g] tick_cont_facts(4) [of g]
    coins_after_nth [OF run_coins_after [of g evs]]
  by blast

theorem coin_pickup_once_witness:
  "\<not> tick_resets (new_game\<lparr>player :=
      \<lparr>p_x = 250, p_y = 160, p_w = 24, p_h = 32, p_vx = 0, p_vy = 0, on_ground = False\<rparr>\<rparr>) \<and>
   no_reset (new_game\<lparr>player :=
      \<lparr>p_x = 250, p_y = 160, p_w = 24, p_h = 32, p_vx = 0, p_vy = 0, on_ground = False\<rparr>\<rparr>) [Tick] \<and>
   live_coins (coins (new_game\<lparr>player :=
      \<lparr>p_x = 250, p_y = 160, p_w = 24, p_h = 32, p_vx = 0, p_vy = 0, on_ground = False\<rparr>\<rparr>)) -
   live_coins (coins (update_physics (new_game\<lparr>player :=
      \<lparr>p_x = 250, p_y = 160, p_w = 24, p_h = 32, p_vx = 0, p_vy = 0, on_ground = False\<rparr>\<rparr>))) = 1 \<and>
   length (coins (run (new_game\<lparr>player :=
      \<lparr>p_x = 250, p_y = 160, p_w = 24, p_h = 32, p_vx = 0, p_vy = 0, on_ground = False\<rparr>\<rparr>) [Tick])) = 9"
proof -
  let ?g = "new_game\<lparr>player :=
      \<lparr>p_x = 250, p_y = 160, p_w = 24, p_h = 32, p_vx = 0, p_vy = 0, on_ground = False\<rparr>\<rparr>"
  have nr: "no_reset ?g [Tick]" using coin_demo_tick(1) by simp
  have sc: "score ?g = 0" and len: "length (coins ?g) = 9"
    by (simp_all add: new_game_def reset_level_def initial_coins_def)
  from coin_pickup_once [where g = ?g and evs = "[Tick]"] coin_demo_tick nr sc len
  show ?thesis by simp
qed

section \<open>Goal\<close>

text \<open>
  Claim C9. In a tick without reset the won flag afterwards is true exactly when it was true
  before or the player's rectangle overlaps the goal rectangle; once true it stays true over
  every sequence of key events and ticks without reset; and the tick does not read the flag:
  apart from the flag itself the state after a tick is the same whatever the flag was.
  In every state reached from a fresh game the goal, the player's height and the enemies'
  height are those of the generated level; there a player that overlaps the goal cannot be
  hit by an enemy in the same tick, so the tick does not reset and sets the flag.
\<close>

theorem goal_sets_sticky_win:
  "(\<not> tick_resets g \<longrightarrow>
      win (update_physics g) =
        (win g \<or> rects_overlap (player_rect (tick_player g)) (goal_rect (goal g)))) \<and>
   (win g \<and> no_reset g evs \<longrightarrow> win (run g evs)) \<and>
   (update_physics (g\<lparr>win := b\<rparr>))\<lparr>win := c\<rparr> = (update_physics g)\<lparr>win := c\<rparr> \<and>
   (level_inv g \<and> rects_overlap (player_rect (tick_player g)) (goal_rect (goal g)) \<longrightarrow>
      \<not> tick_resets g \<and> win (update_physics g)) \<and>
   level_inv (run new_game evs)"
  using update_physics_win [of g] run_win_sticky [of g evs]
    update_physics_ignores_win [where g = g and b = b and c = c]
    goal_excludes_enemy [of g] level_inv_goal_wins [of g] level_inv_reachable [of evs]
  by blast

theorem goal_sets_sticky_win_witness:
  "\<not> tick_resets (new_game\<lparr>player :=
      \<lparr>p_x = 1395, p_y = 200, p_w = 24, p_h = 32, p_vx = 0, p_vy = 0, on_ground = False\<rparr>\<rparr>) \<and>
   \<not> win (new_game\<lparr>player :=
      \<lparr>p_x = 1395, p_y = 200, p_w = 24, p_h = 32, p_vx = 0, p_vy = 0, on_ground = False\<rparr>\<rparr>) \<and>
   win (update_physics (new_game\<lparr>player :=
      \<lparr>p_x = 1395, p_y = 200, p_w = 24, p_h = 32, p_vx = 0, p_vy = 0, on_ground = False\<rparr>\<rparr>)) \<and>
   level_inv (new_game\<lparr>player :=
      \<lparr>p_x = 1395, p_y = 200, p_w = 24, p_h = 32, p_vx = 0, p_vy = 0, on_ground = False\<rparr>\<rparr>) \<and>
   win (new_game\<lparr>win := True\<rparr>) \<and> no_reset (new_game\<lparr>win := True\<rparr>) [Tick] \<and>
   win (run (new_game\<lparr>win := True\<rparr>) [Tick])"
proof -
  let ?g = "new_game\<lparr>player :=
      \<lparr>p_x = 1395, p_y = 200, p_w = 24, p_h = 32, p_vx = 0, p_vy = 0, on_ground = False\<rparr>\<rparr>"
  let ?w = "new_game\<lparr>win := True\<rparr>"
  have nw: "\<not> win ?g" by (simp add: new_game_def reset_level_def)
  have li: "level_inv ?g" by (simp add: level_inv_def new_game_def reset_level_def)
  have nr: "no_reset ?w [Tick]" using new_game_no_reset by simp
  from goal_sets_sticky_win [where g = ?g and evs = "[]" and b = True and c = True]
    goal_demo_tick
  have a: "win (update_physics ?g)" by simp
  from goal_sets_sticky_win [where g = ?w and evs = "[Tick]" and b = True and c = True] nr
  have b: "win (run ?w [Tick])" by simp
  from a b nw nr li goal_demo_tick(1) show ?thesis by simp
qed

section \<open>Stomp or death\<close>

text \<open>
  Claim C3. Take a tick in which a living enemy, after its own move, overlaps the player's
  rectangle. If the stomp test fails (the player's \<open>vy\<close> is not positive, or the player's
  bottom edge minus 6 is below the enemy's top), the tick ends in the freshly generated
  state: \<open>reset_level\<close> is called and nothing else of the tick is applied. If the stomp
  test holds and no other living enemy overlaps the player, the tick does not reset, the
  enemy is marked not alive, the score is the score after the coin loop plus 200 and the
  player's \<open>vy\<close> is \<open>-8\<close>. The level never has more than its one enemy.
\<close>

theorem stomp_or_death:
  "(e \<in> set (enemies g) \<and>
    enemy_touches (platforms g) (player_rect (tick_player g)) e \<and>
    \<not> stomps (tick_player g) (enemy_patrol (platforms g) e) \<longrightarrow>
      tick_resets g \<and> update_physics g = reset_level g \<and> update_physics g = new_game \<and>
      score (update_physics g) = 0 \<and> \<not> win (update_physics g)) \<and>
   (enemies g = es1 @ e # es2 \<and>
    (\<forall>e' \<in> set es1 \<union> set es2.
        \<not> enemy_touches (platforms g) (player_rect (tick_player g)) e') \<and>
    enemy_touches (platforms g) (player_rect (tick_player g)) e \<and>
    stomps (tick_player g) (enemy_patrol (platforms g) e) \<longrightarrow>
      \<not> tick_resets g \<and>
      enemies (update_physics g) =
        map (enemy_step (platforms g)) es1 @
        (enemy_patrol (platforms g) e)\<lparr>e_alive := False\<rparr> #
        map (enemy_step (platforms g)) es2 \<and>
      score (update_physics g) = coin_score g + 200 \<and>
      p_vy (player (update_physics g)) = - 8) \<and>
   length (enemies (run new_game evs)) = 1"
proof (intro conjI impI)
  assume a: "e \<in> set (enemies g) \<and>
    enemy_touches (platforms g) (player_rect (tick_player g)) e \<and>
    \<not> stomps (tick_player g) (enemy_patrol (platforms g) e)"
  then have "enemies_loop (platforms g) (player_rect (tick_player g)) (enemies g)
      (tick_player g) (coin_score g) = None"
    by (intro enemies_loop_death) blast
  then show r: "tick_resets g" by (simp add: tick_resets_def)
  then show "update_physics g = reset_level g" by (rule update_physics_reset)
  with reset_level_const [of g blank_game] show "update_physics g = new_game"
    by (simp add: new_game_def)
  then show "score (update_physics g) = 0" and "\<not> win (update_physics g)"
    by (simp_all add: new_game_def reset_level_def)
next
  assume a: "enemies g = es1 @ e # es2 \<and>
    (\<forall>e' \<in> set es1 \<union> set es2.
        \<not> enemy_touches (platforms g) (player_rect (tick_player g)) e') \<and>
    enemy_touches (platforms g) (player_rect (tick_player g)) e \<and>
    stomps (tick_player g) (enemy_patrol (platforms g) e)"
  then have loop: "enemies_loop (platforms g) (player_rect (tick_player g)) (enemies g)
      (tick_player g) (coin_score g) =
     Some (map (enemy_step (platforms g)) es1 @ (enemy_patrol (platforms g) e)\<lparr>e_alive := False\<rparr> #
             map (enemy_step (platforms g)) es2, (tick_player g)\<lparr>p_vy := - 8\<rparr>, coin_score g + 200)"
    using enemies_loop_one_stomp [where ?es1.0 = es1 and ?es2.0 = es2 and e = e
        and pls = "platforms g" and pr = "player_rect (tick_player g)" and p = "tick_player g"
        and sc = "coin_score g"]
    by simp
  then show "\<not> tick_resets g" by (simp add: tick_resets_def)
  from update_physics_cont [OF loop]
  show "enemies (update_physics g) =
        map (enemy_step (platforms g)) es1 @
        (enemy_patrol (platforms g) e)\<lparr>e_alive := False\<rparr> #
        map (enemy_step (platforms g)) es2"
    and "score (update_physics g) = coin_score g + 200"
    and "p_vy (player (update_physics g)) = - 8"
    by simp_all
next
  show "length (enemies (run new_game evs)) = 1"
    by (rule run_one_enemy) (simp add: new_game_def reset_level_def)
qed

theorem stomp_or_death_witness:
  "enemy_touches (platforms (new_game\<lparr>player :=
        \<lparr>p_x = 520, p_y = 304, p_w = 24, p_h = 32, p_vx = 0, p_vy = 4, on_ground = False\<rparr>\<rparr>))
     (player_rect (tick_player (new_game\<lparr>player :=
        \<lparr>p_x = 520, p_y = 304, p_w = 24, p_h = 32, p_vx = 0, p_vy = 4, on_ground = False\<rparr>\<rparr>)))
     \<lparr>e_x = 520, e_y = 340, e_w = 28, e_h = 20, e_vx = - 1, e_alive = True\<rparr> \<and>
   score (update_physics (new_game\<lparr>player :=
        \<lparr>p_x = 520, p_y = 304, p_w = 24, p_h = 32, p_vx = 0, p_vy = 4, on_ground = False\<rparr>\<rparr>)) =
     coin_score (new_game\<lparr>player :=
        \<lparr>p_x = 520, p_y = 304, p_w = 24, p_h = 32, p_vx = 0, p_vy = 4, on_ground = False\<rparr>\<rparr>) + 200 \<and>
   p_vy (player (update_physics (new_game\<lparr>player :=
        \<lparr>p_x = 520, p_y = 304, p_w = 24, p_h = 32, p_vx = 0, p_vy = 4, on_ground = False\<rparr>\<rparr>))) = - 8 \<and>
   enemy_touches (platforms (new_game\<lparr>player :=
        \<lparr>p_x = 520, p_y = 328, p_w = 24, p_h = 32, p_vx = 0, p_vy = 0, on_ground = False\<rparr>\<rparr>))
     (player_rect (tick_player (new_game\<lparr>player :=
        \<lparr>p_x = 520, p_y = 328, p_w = 24, p_h = 32, p_vx = 0, p_vy = 0, on_ground = False\<rparr>\<rparr>)))
     \<lparr>e_x = 520, e_y = 340, e_w = 28, e_h = 20, e_vx = - 1, e_alive = True\<rparr> \<and>
   update_physics (new_game\<lparr>player :=
        \<lparr>p_x = 520, p_y = 328, p_w = 24, p_h = 32, p_vx = 0, p_vy = 0, on_ground = False\<rparr>\<rparr>) = new_game"
proof -
  let ?s = "new_game\<lparr>player :=
        \<lparr>p_x = 520, p_y = 304, p_w = 24, p_h = 32, p_vx = 0, p_vy = 4, on_ground = False\<rparr>\<rparr>"
  let ?d = "new_game\<lparr>player :=
        \<lparr>p_x = 520, p_y = 328, p_w = 24, p_h = 32, p_vx = 0, p_vy = 0, on_ground = False\<rparr>\<rparr>"
  let ?e = "\<lparr>e_x = 520, e_y = 340, e_w = 28, e_h = 20, e_vx = - 1, e_alive = True\<rparr>"
  have es: "enemies ?s = [] @ ?e # []" and ed: "?e \<in> set (enemies ?d)"
    by (simp_all add: new_game_def reset_level_def)
  from stomp_or_death [where g = ?s and e = ?e and ?es1.0 = "[]" and ?es2.0 = "[]" and evs = "[]"]
    es stomp_demo_tick
  have a: "score (update_physics ?s) = coin_score ?s + 200 \<and> p_vy (player (update_physics ?s)) = - 8"
    by simp
  from stomp_or_death [where g = ?d and e = ?e and ?es1.0 = "[]" and ?es2.0 = "[]" and evs = "[]"]
    ed death_demo_tick
  have b: "update_physics ?d = new_game"
    by blast
  from a b stomp_demo_tick(1) death_demo_tick(1) show ?thesis by blast
qed

section \<open>The order of the phases of a tick\<close>

text \<open>
  Claim C2. A tick computes the same state as the phases taken in the order of the
  specification: input and horizontal integration, vertical integration, horizontal collision
  pass, vertical collision pass, jump, camera, the patrol step of every living enemy, and then
  one pass of the interactions (coins, stomp or death for each living enemy, goal). The source
  collects the coins before the enemy loop and tests each enemy right after moving it; the
  result is the same for every state.
\<close>

theorem tick_in_spec_order: "update_physics g = spec_tick g"
proof -
  have "spec_tick g =
     (let p = tick_player g; sx = scroll_update (scroll_x g) (p_x p); pr = player_rect p
      in case collect_coins pr (coins g) (score g) of (cs, sc) \<Rightarrow>
         (case enemies_loop (platforms g) pr (enemies g) p sc of
            None \<Rightarrow> reset_level g
          | Some (es, p', sc') \<Rightarrow>
              let g' = g\<lparr>player := p', scroll_x := sx, coins := cs, enemies := es,
                          score := sc'\<rparr>
              in if rects_overlap pr (goal_rect (goal g)) then g'\<lparr>win := True\<rparr> else g'))"
    unfolding spec_tick_def spec_interaction_evaluator_def spec_enemy_controller_def
      tick_player_def collide_player_def Let_def loop_is_spec_order
    by (auto split: prod.splits option.splits intro: reset_level_const)
  also have "\<dots> = update_physics g"
    unfolding update_physics_def tick_player_def Let_def
    by (auto split: prod.splits option.splits intro: reset_level_const)
  finally show ?thesis by simp
qed

theorem tick_in_spec_order_witness:
  "update_physics new_game = spec_tick new_game"
  by (rule tick_in_spec_order)

section \<open>Residual penetration after collision resolution\<close>

text \<open>
  Claim C1 says that after the two collision passes of a tick the player's rectangle
  overlaps no platform. The code does not achieve this. Start a fresh game and hold Right and
  Jump. In tick 32 the vertical pass moves the player up into the left end of the platform
  \<open>(220, 300, 80, 16)\<close>; the overlap is narrower than it is high, so the pass resolves along
  x, and as its \<open>dx\<close> is 0 it takes the branch for leftward motion and adds the overlap to
  \<open>x\<close>. After the two passes of that tick the player overlaps the platform by
  \<open>7420489 / 6250000\<close> horizontally and \<open>28 / 5\<close> vertically, and so it does at the end of
  the tick.
\<close>

theorem residual_penetration:
  "(220, 300, 80, 16) \<in> set (platforms (run new_game (hold_right_jump 31))) \<and>
   collide_player (run new_game (hold_right_jump 31)) =
     \<lparr>p_x = 1232420489 / 6250000, p_y = 1552 / 5, p_w = 24, p_h = 32, p_vx = 0,
       p_vy = - (42 / 5), on_ground = False\<rparr> \<and>
   rects_overlap (player_rect (collide_player (run new_game (hold_right_jump 31))))
     (platform_rect (220, 300, 80, 16)) \<and>
   overlap_w (player_rect (collide_player (run new_game (hold_right_jump 31))))
     (platform_rect (220, 300, 80, 16)) = 7420489 / 6250000 \<and>
   overlap_h (player_rect (collide_player (run new_game (hold_right_jump 31))))
     (platform_rect (220, 300, 80, 16)) = 28 / 5 \<and>
   rects_overlap (player_rect (player (run new_game (hold_right_jump 32))))
     (platform_rect (220, 300, 80, 16))"
  unfolding run_31 run_32 tick_32_collide
  by (simp add: airborne_fields level_platforms player_rect_def platform_rect_def)

end
